theory Spec2Isabelle
  imports Main "HOL-Library.Word" "HOL-Library.Monad_Syntax"
begin

unbundle bit_operations_syntax

section \<open>Data model of \<open>drv_pkttransfer\<close>\<close>

text \<open>
  The driver frames a payload as \<open>0x7E | stuffed (PAYLOAD, CRC16) | 0x7E\<close>.
  Bytes are \<open>uint8_t\<close>, the CRC is a \<open>uint16_t\<close>, the counters and CAN identifiers
  are \<open>uint32_t\<close>. Sizes and cursors (\<open>size_t\<close>) are natural numbers: every one of
  them is bounded by the length of a caller-owned buffer of \<open>payload_size_max + 2\<close>
  bytes, so no \<open>size_t\<close> arithmetic of the driver wraps.
\<close>

type_synonym uint8_t = "8 word"
type_synonym uint16_t = "16 word"
type_synonym uint32_t = "32 word"

definition PKTTRANSFER_CAN_MGS_SIZE :: nat where
  "PKTTRANSFER_CAN_MGS_SIZE = 8"

definition PKTTRANSFER_FRAME_CRC_SIZE :: nat where
  "PKTTRANSFER_FRAME_CRC_SIZE = 2"

definition PKTTRANSFER_FRAME_DELIMITER_BYTE :: uint8_t where
  "PKTTRANSFER_FRAME_DELIMITER_BYTE = 0x7E"

definition PKTTRANSFER_FRAME_ESCAPE_BYTE :: uint8_t where
  "PKTTRANSFER_FRAME_ESCAPE_BYTE = 0x7D"

definition PKTTRANSFER_FRAME_ENCODED_DELIMITER_BYTE :: uint8_t where
  "PKTTRANSFER_FRAME_ENCODED_DELIMITER_BYTE = 0x5E"

definition PKTTRANSFER_FRAME_ENCODED_ESCAPE_BYTE :: uint8_t where
  "PKTTRANSFER_FRAME_ENCODED_ESCAPE_BYTE = 0x5D"

datatype pkttransfer_err_enum_t =
    PKTTRANSFER_ERR_OK
  | PKTTRANSFER_ERR_BASE
  | PKTTRANSFER_ERR_TX_OVF
  | PKTTRANSFER_ERR_RX_OVF
  | PKTTRANSFER_ERR_TX_ERR
  | PKTTRANSFER_ERR_RX_ERR
  | PKTTRANSFER_ERR_NO_CONN
  | PKTTRANSFER_ERR_CRC
  | PKTTRANSFER_ERR_FRAME

datatype pkttransfer_frame_state_enum_t =
    PKTTRANSFER_STATE_DELIMITER
  | PKTTRANSFER_STATE_BYTE
  | PKTTRANSFER_STATE_ENCODED_BYTE

section \<open>CRC engine\<close>

text \<open>
  \<open>pkttransfer_crc16\<close>, as written: the register starts at \<open>0xFFFF\<close>; the \<open>while\<close>
  loop runs over the bytes of the buffer, XORs each into the register and runs the
  inner \<open>for\<close> loop eight times; the register is then split into the two bytes
  \<open>out[0]\<close>, \<open>out[1]\<close>, each is XORed with a byte of \<open>xorout\<close>, the two are swapped
  and joined again. Assignments to a \<open>uint8_t\<close> truncate (\<open>ucast\<close>).
\<close>

definition crc16_shift :: "uint16_t \<Rightarrow> uint16_t" where
  "crc16_shift crc =
     (if crc AND 0x0001 \<noteq> 0 then drop_bit 1 crc XOR 0x8408 else drop_bit 1 crc)"

fun crc16_for :: "nat \<Rightarrow> uint16_t \<Rightarrow> uint16_t" where
  "crc16_for 0 crc = crc"
| "crc16_for (Suc i) crc = crc16_for i (crc16_shift crc)"

fun crc16_while :: "uint8_t list \<Rightarrow> uint16_t \<Rightarrow> uint16_t" where
  "crc16_while [] crc = crc"
| "crc16_while (b # data) crc =
     crc16_while data (crc16_for 8 (crc XOR (ucast b AND 0x00FF)))"

definition pkttransfer_crc16 :: "uint8_t list \<Rightarrow> uint16_t" where
  "pkttransfer_crc16 data =
     (let xorout = (0xFFFF :: uint16_t);
          crc = crc16_while data 0xFFFF;
          out0 = (ucast (drop_bit 8 (crc AND 0xFF00)) :: uint8_t);
          out1 = (ucast (crc AND 0x00FF) :: uint8_t);
          out0 = out0 XOR ucast (xorout AND 0x00FF);
          out1 = out1 XOR ucast (drop_bit 8 (xorout AND 0xFF00));
          tmp = out0;
          out0 = out1;
          out1 = tmp
      in push_bit 8 (ucast out1 AND 0x00FF) OR ucast out0)"

text \<open>
  The reference, written from the words of the specification: CRC-16/X-25 has the
  reflected polynomial \<open>0x8408\<close> and the initial register \<open>0xFFFF\<close>; each input byte is
  XORed into the low byte of the register, followed by eight right shifts, each with
  a XOR of the polynomial when the bit shifted out is 1; the result is the register
  XORed with \<open>0xFFFF\<close>.
\<close>

definition x25_shift :: "uint16_t \<Rightarrow> uint16_t" where
  "x25_shift r = (if bit r 0 then drop_bit 1 r XOR 0x8408 else drop_bit 1 r)"

definition x25_byte :: "uint16_t \<Rightarrow> uint8_t \<Rightarrow> uint16_t" where
  "x25_byte r b = (x25_shift ^^ 8) (r XOR ucast b)"

definition crc16_x25 :: "uint8_t list \<Rightarrow> uint16_t" where
  "crc16_x25 data = foldl x25_byte 0xFFFF data XOR 0xFFFF"

section \<open>The instance\<close>

text \<open>
  The instance gathers the configuration (\<open>pkttransfer_config_t\<close>: the maximal payload
  size and the two caller-owned buffers, held here by value) and the run-time state
  (\<open>pkttransfer_state_t\<close>). The CAN identifiers exist in the CAN build only; the UART
  build never touches them. The callbacks of \<open>pkttransfer_hw_itf_t\<close> and
  \<open>pkttransfer_app_itf_t\<close> belong to the environment: what they return is an input
  of the model, and each call the driver makes is an output.
\<close>

record pkttransfer_t =
  payload_size_max :: nat
  buf_rx_p :: "uint8_t list"
  buf_tx_p :: "uint8_t list"
  tx_state :: pkttransfer_frame_state_enum_t
  tx_size :: nat
  sent_size :: nat
  rx_state :: pkttransfer_frame_state_enum_t
  rx_size :: nat
  sof_detections_cnt :: uint32_t
  received_packets_cnt :: uint32_t
  sent_packets_cnt :: uint32_t
  can_id_rx :: uint32_t
  can_id_tx :: uint32_t

text \<open>The build variant, chosen by the preprocessor.\<close>

datatype pkttransfer_over = PKTTRANSFER_OVER_UART | PKTTRANSFER_OVER_CAN

text \<open>
  What the hardware callbacks answer during one call of the task: \<open>tx_is_avail_cb\<close>,
  \<open>rx_is_ready_cb\<close>, and \<open>rx_cb\<close> (one byte in the UART build; in the CAN build the
  bytes copied into \<open>received_buf\<close>, their number being the returned size).
\<close>

record pkttransfer_hw_answers =
  tx_is_avail :: bool
  rx_is_ready :: bool
  uart_rx :: uint8_t
  can_rx :: "uint8_t list"

text \<open>The calls the driver makes: \<open>tx_cb\<close> and \<open>rx_cb\<close> of either build, and \<open>app_pkt_cb\<close>.\<close>

datatype pkttransfer_cb_call =
    UART_TX_CB uint8_t
  | CAN_TX_CB "uint8_t list" uint32_t
  | UART_RX_CB
  | CAN_RX_CB uint32_t
  | APP_PKT_CB "uint8_t list"

text \<open>
  A failed \<open>assert\<close> and an access outside a buffer end the program: the result
  \<open>None\<close>.
\<close>

definition c_assert :: "bool \<Rightarrow> unit option" where
  "c_assert b = (if b then Some () else None)"

definition buf_read :: "uint8_t list \<Rightarrow> nat \<Rightarrow> uint8_t option" where
  "buf_read buf i = (if i < length buf then Some (buf ! i) else None)"

definition buf_write :: "uint8_t list \<Rightarrow> nat \<Rightarrow> uint8_t \<Rightarrow> uint8_t list option" where
  "buf_write buf i v = (if i < length buf then Some (buf[i := v]) else None)"

definition buf_memcpy :: "uint8_t list \<Rightarrow> uint8_t list \<Rightarrow> nat \<Rightarrow> uint8_t list option" where
  "buf_memcpy dst src n =
     (if n \<le> length dst \<and> n \<le> length src then Some (take n src @ drop n dst) else None)"

section \<open>Private functions\<close>

definition pkttransfer_is_init :: "pkttransfer_t \<Rightarrow> bool" where
  "pkttransfer_is_init inst = (payload_size_max inst \<noteq> 0)"

definition pkttransfer_bytes_for_sending :: "pkttransfer_t \<Rightarrow> bool option" where
  "pkttransfer_bytes_for_sending inst = do {
     c_assert (tx_size inst \<ge> sent_size inst);
     Some (tx_size inst \<noteq> 0)
   }"

definition pkttransfer_prepare_byte :: "pkttransfer_t \<Rightarrow> (uint8_t \<times> pkttransfer_t) option" where
  "pkttransfer_prepare_byte inst = do {
     c_assert (tx_size inst \<noteq> 0 \<and>
               tx_size inst \<le> payload_size_max inst + PKTTRANSFER_FRAME_CRC_SIZE);
     c_assert (tx_size inst \<ge> sent_size inst);
     if sent_size inst = tx_size inst then
       Some (PKTTRANSFER_FRAME_DELIMITER_BYTE,
             inst\<lparr>sent_size := 0, tx_size := 0, tx_state := PKTTRANSFER_STATE_DELIMITER,
                  sent_packets_cnt := sent_packets_cnt inst + 1\<rparr>)
     else do {
       next_payload_byte \<leftarrow> buf_read (buf_tx_p inst) (sent_size inst);
       case tx_state inst of
         PKTTRANSFER_STATE_DELIMITER \<Rightarrow>
           Some (PKTTRANSFER_FRAME_DELIMITER_BYTE, inst\<lparr>tx_state := PKTTRANSFER_STATE_BYTE\<rparr>)
       | PKTTRANSFER_STATE_BYTE \<Rightarrow>
           if next_payload_byte = PKTTRANSFER_FRAME_DELIMITER_BYTE \<or>
              next_payload_byte = PKTTRANSFER_FRAME_ESCAPE_BYTE
           then Some (PKTTRANSFER_FRAME_ESCAPE_BYTE,
                      inst\<lparr>tx_state := PKTTRANSFER_STATE_ENCODED_BYTE\<rparr>)
           else Some (next_payload_byte, inst\<lparr>sent_size := sent_size inst + 1\<rparr>)
       | PKTTRANSFER_STATE_ENCODED_BYTE \<Rightarrow>
           Some (if next_payload_byte = PKTTRANSFER_FRAME_DELIMITER_BYTE
                 then PKTTRANSFER_FRAME_ENCODED_DELIMITER_BYTE
                 else PKTTRANSFER_FRAME_ENCODED_ESCAPE_BYTE,
                 inst\<lparr>sent_size := sent_size inst + 1, tx_state := PKTTRANSFER_STATE_BYTE\<rparr>)
     }
   }"

definition pkttransfer_process_frame ::
  "pkttransfer_t \<Rightarrow> (pkttransfer_t \<times> pkttransfer_cb_call list) option" where
  "pkttransfer_process_frame inst = do {
     c_assert (rx_size inst \<le> payload_size_max inst + PKTTRANSFER_FRAME_CRC_SIZE);
     if rx_size inst \<le> PKTTRANSFER_FRAME_CRC_SIZE then Some (inst, [])
     else do {
       crc_hi \<leftarrow> buf_read (buf_rx_p inst) (rx_size inst - 1);
       crc_lo \<leftarrow> buf_read (buf_rx_p inst) (rx_size inst - 2);
       let actual_crc = (push_bit 8 (ucast crc_hi) OR ucast crc_lo :: uint16_t);
       let expected_crc =
             pkttransfer_crc16 (take (rx_size inst - PKTTRANSFER_FRAME_CRC_SIZE) (buf_rx_p inst));
       if actual_crc \<noteq> expected_crc then Some (inst, [])
       else Some (inst\<lparr>received_packets_cnt := received_packets_cnt inst + 1\<rparr>,
                  [APP_PKT_CB (take (rx_size inst - PKTTRANSFER_FRAME_CRC_SIZE) (buf_rx_p inst))])
     }
   }"

definition pkttransfer_process_byte ::
  "pkttransfer_t \<Rightarrow> uint8_t \<Rightarrow> (pkttransfer_t \<times> pkttransfer_cb_call list) option" where
  "pkttransfer_process_byte inst byte = do {
     c_assert (rx_size inst \<le> payload_size_max inst + PKTTRANSFER_FRAME_CRC_SIZE);
     case rx_state inst of
       PKTTRANSFER_STATE_DELIMITER \<Rightarrow>
         if byte = PKTTRANSFER_FRAME_DELIMITER_BYTE
         then Some (inst\<lparr>sof_detections_cnt := sof_detections_cnt inst + 1,
                         rx_state := PKTTRANSFER_STATE_BYTE\<rparr>, [])
         else Some (inst, [])
     | PKTTRANSFER_STATE_BYTE \<Rightarrow>
         if byte = PKTTRANSFER_FRAME_ESCAPE_BYTE
         then Some (inst\<lparr>rx_state := PKTTRANSFER_STATE_ENCODED_BYTE\<rparr>, [])
         else if byte = PKTTRANSFER_FRAME_DELIMITER_BYTE
         then do {
           (inst, calls) \<leftarrow> pkttransfer_process_frame inst;
           Some (inst\<lparr>rx_size := 0, rx_state := PKTTRANSFER_STATE_DELIMITER\<rparr>, calls)
         }
         else if rx_size inst \<ge> payload_size_max inst
         then Some (inst\<lparr>rx_size := 0, rx_state := PKTTRANSFER_STATE_DELIMITER\<rparr>, [])
         else do {
           buf \<leftarrow> buf_write (buf_rx_p inst) (rx_size inst) byte;
           Some (inst\<lparr>buf_rx_p := buf, rx_size := rx_size inst + 1\<rparr>, [])
         }
     | PKTTRANSFER_STATE_ENCODED_BYTE \<Rightarrow>
         if (byte \<noteq> PKTTRANSFER_FRAME_ENCODED_DELIMITER_BYTE \<and>
             byte \<noteq> PKTTRANSFER_FRAME_ENCODED_ESCAPE_BYTE) \<or>
            rx_size inst \<ge> payload_size_max inst
         then Some (inst\<lparr>rx_size := 0, rx_state := PKTTRANSFER_STATE_DELIMITER\<rparr>, [])
         else do {
           let byte = (if byte = PKTTRANSFER_FRAME_ENCODED_DELIMITER_BYTE
                       then PKTTRANSFER_FRAME_DELIMITER_BYTE
                       else PKTTRANSFER_FRAME_ESCAPE_BYTE);
           buf \<leftarrow> buf_write (buf_rx_p inst) (rx_size inst) byte;
           Some (inst\<lparr>buf_rx_p := buf, rx_size := rx_size inst + 1,
                      rx_state := PKTTRANSFER_STATE_BYTE\<rparr>, [])
         }
   }"

section \<open>Public functions\<close>

text \<open>
  \<open>pkttransfer_init\<close> clears the instance and copies the configuration; the state
  \<open>PKTTRANSFER_STATE_DELIMITER\<close> is the enumeration's 0.
\<close>

definition pkttransfer_init :: "nat \<Rightarrow> uint8_t list \<Rightarrow> uint8_t list \<Rightarrow> pkttransfer_t option" where
  "pkttransfer_init config_payload_size_max config_buf_rx config_buf_tx = do {
     c_assert (config_payload_size_max \<noteq> 0);
     Some \<lparr>payload_size_max = config_payload_size_max,
           buf_rx_p = config_buf_rx,
           buf_tx_p = config_buf_tx,
           tx_state = PKTTRANSFER_STATE_DELIMITER, tx_size = 0, sent_size = 0,
           rx_state = PKTTRANSFER_STATE_DELIMITER, rx_size = 0,
           sof_detections_cnt = 0, received_packets_cnt = 0, sent_packets_cnt = 0,
           can_id_rx = 0, can_id_tx = 0\<rparr>
   }"

text \<open>
  \<open>pkttransfer_send\<close>: \<open>payload_p\<close> is the caller's array, \<open>payload_size\<close> (the
  parameter \<open>size\<close>) the number of bytes to send from it. The argument \<open>can_id\<close> exists in the CAN build only.
\<close>

definition pkttransfer_send ::
  "pkttransfer_over \<Rightarrow> pkttransfer_t \<Rightarrow> uint8_t list \<Rightarrow> nat \<Rightarrow> uint32_t \<Rightarrow>
     (pkttransfer_err_enum_t \<times> pkttransfer_t) option" where
  "pkttransfer_send ov inst payload_p payload_size can_id = do {
     c_assert (pkttransfer_is_init inst);
     if payload_size > payload_size_max inst then Some (PKTTRANSFER_ERR_TX_OVF, inst)
     else if tx_size inst \<noteq> 0 then Some (PKTTRANSFER_ERR_TX_OVF, inst)
     else do {
       buf \<leftarrow> buf_memcpy (buf_tx_p inst) payload_p payload_size;
       let inst = inst\<lparr>buf_tx_p := buf, tx_size := payload_size + PKTTRANSFER_FRAME_CRC_SIZE,
                       sent_size := 0\<rparr>;
       let inst = (case ov of PKTTRANSFER_OVER_UART \<Rightarrow> inst
                   | PKTTRANSFER_OVER_CAN \<Rightarrow> inst\<lparr>can_id_tx := can_id\<rparr>);
       let crc = pkttransfer_crc16 (take payload_size (buf_tx_p inst));
       buf \<leftarrow> buf_write (buf_tx_p inst) payload_size (ucast (crc AND 0xFF));
       buf \<leftarrow> buf_write buf (payload_size + 1) (ucast (drop_bit 8 crc));
       Some (PKTTRANSFER_ERR_OK, inst\<lparr>buf_tx_p := buf\<rparr>)
     }
   }"

definition pkttransfer_set_can_id_rx :: "pkttransfer_t \<Rightarrow> uint32_t \<Rightarrow> pkttransfer_t option" where
  "pkttransfer_set_can_id_rx inst can_id = do {
     c_assert (pkttransfer_is_init inst);
     Some (inst\<lparr>can_id_rx := can_id\<rparr>)
   }"

text \<open>
  The loop of the CAN build that fills \<open>transmit_buf\<close>: the first argument is the number
  of iterations left, the result the bytes stored (\<open>transmit_buf_size\<close> is their
  number).
\<close>

fun pkttransfer_task_fill ::
  "nat \<Rightarrow> pkttransfer_t \<Rightarrow> (uint8_t list \<times> pkttransfer_t) option" where
  "pkttransfer_task_fill 0 inst = Some ([], inst)"
| "pkttransfer_task_fill (Suc n) inst = do {
     (b, inst) \<leftarrow> pkttransfer_prepare_byte inst;
     more \<leftarrow> pkttransfer_bytes_for_sending inst;
     if \<not> more then Some ([b], inst)
     else do {
       (bs, inst) \<leftarrow> pkttransfer_task_fill n inst;
       Some (b # bs, inst)
     }
   }"

text \<open>The loop of the CAN build over the bytes of \<open>received_buf\<close>.\<close>

fun pkttransfer_process_bytes ::
  "pkttransfer_t \<Rightarrow> uint8_t list \<Rightarrow> (pkttransfer_t \<times> pkttransfer_cb_call list) option" where
  "pkttransfer_process_bytes inst [] = Some (inst, [])"
| "pkttransfer_process_bytes inst (b # bs) = do {
     (inst, calls) \<leftarrow> pkttransfer_process_byte inst b;
     (inst, calls') \<leftarrow> pkttransfer_process_bytes inst bs;
     Some (inst, calls @ calls')
   }"

text \<open>The two halves of \<open>pkttransfer_task\<close>: sending, then receiving.\<close>

definition pkttransfer_task_tx ::
  "pkttransfer_over \<Rightarrow> pkttransfer_t \<Rightarrow> pkttransfer_hw_answers \<Rightarrow>
     (pkttransfer_t \<times> pkttransfer_cb_call list) option" where
  "pkttransfer_task_tx ov inst hw = do {
     pending \<leftarrow> pkttransfer_bytes_for_sending inst;
     if pending \<and> tx_is_avail hw then
       (case ov of
          PKTTRANSFER_OVER_UART \<Rightarrow> do {
            (transmit_byte, inst) \<leftarrow> pkttransfer_prepare_byte inst;
            Some (inst, [UART_TX_CB transmit_byte])
          }
        | PKTTRANSFER_OVER_CAN \<Rightarrow> do {
            (transmit_buf, inst) \<leftarrow> pkttransfer_task_fill PKTTRANSFER_CAN_MGS_SIZE inst;
            Some (inst, [CAN_TX_CB transmit_buf (can_id_tx inst)])
          })
     else Some (inst, [])
   }"

definition pkttransfer_task_rx ::
  "pkttransfer_over \<Rightarrow> pkttransfer_t \<Rightarrow> pkttransfer_hw_answers \<Rightarrow>
     (pkttransfer_t \<times> pkttransfer_cb_call list) option" where
  "pkttransfer_task_rx ov inst hw =
     (if rx_is_ready hw then
        (case ov of
           PKTTRANSFER_OVER_UART \<Rightarrow> do {
             (inst, calls) \<leftarrow> pkttransfer_process_byte inst (uart_rx hw);
             Some (inst, UART_RX_CB # calls)
           }
         | PKTTRANSFER_OVER_CAN \<Rightarrow> do {
             c_assert (length (can_rx hw) \<le> PKTTRANSFER_CAN_MGS_SIZE);
             (inst', calls) \<leftarrow> pkttransfer_process_bytes inst (can_rx hw);
             Some (inst', CAN_RX_CB (can_id_rx inst) # calls)
           })
      else Some (inst, []))"

definition pkttransfer_task ::
  "pkttransfer_over \<Rightarrow> pkttransfer_t \<Rightarrow> pkttransfer_hw_answers \<Rightarrow>
     (pkttransfer_t \<times> pkttransfer_cb_call list) option" where
  "pkttransfer_task ov inst hw = do {
     c_assert (pkttransfer_is_init inst);
     (inst, tx_calls) \<leftarrow> pkttransfer_task_tx ov inst hw;
     (inst, rx_calls) \<leftarrow> pkttransfer_task_rx ov inst hw;
     Some (inst, tx_calls @ rx_calls)
   }"

section \<open>Running the driver\<close>

text \<open>
  The task called again and again until \<open>tx_size\<close> is 0, as the test of sending does
  and as a caller that waits for the end of a transmission does. The list holds the
  answers of the hardware callbacks, one element for each call of the task; the
  result is \<open>None\<close> when the list ends before \<open>tx_size\<close> is 0.
\<close>

fun pkttransfer_pump ::
  "pkttransfer_over \<Rightarrow> pkttransfer_hw_answers list \<Rightarrow> pkttransfer_t \<Rightarrow>
     (pkttransfer_t \<times> pkttransfer_cb_call list) option" where
  "pkttransfer_pump ov [] inst = (if tx_size inst = 0 then Some (inst, []) else None)"
| "pkttransfer_pump ov (hw # hws) inst =
     (if tx_size inst = 0 then Some (inst, [])
      else do {
        (inst, calls) \<leftarrow> pkttransfer_task ov inst hw;
        (inst, calls') \<leftarrow> pkttransfer_pump ov hws inst;
        Some (inst, calls @ calls')
      })"

text \<open>The bytes handed to \<open>tx_cb\<close> and the payloads handed to \<open>app_pkt_cb\<close>, in order.\<close>

definition tx_bytes :: "pkttransfer_cb_call list \<Rightarrow> uint8_t list" where
  "tx_bytes calls =
     concat (map (\<lambda>c. case c of UART_TX_CB b \<Rightarrow> [b] | CAN_TX_CB bs cid \<Rightarrow> bs | _ \<Rightarrow> []) calls)"

definition app_pkts :: "pkttransfer_cb_call list \<Rightarrow> uint8_t list list" where
  "app_pkts calls = concat (map (\<lambda>c. case c of APP_PKT_CB p \<Rightarrow> [p] | _ \<Rightarrow> []) calls)"

text \<open>
  The states of an instance \<open>i0\<close> after any sequence of calls of \<open>pkttransfer_send\<close>,
  \<open>pkttransfer_set_can_id_rx\<close> (CAN build) and \<open>pkttransfer_task\<close>, with any arguments
  and any answers of the hardware.
\<close>

inductive pkttransfer_reach ::
  "pkttransfer_over \<Rightarrow> pkttransfer_t \<Rightarrow> pkttransfer_t \<Rightarrow> bool"
  for ov :: pkttransfer_over and i0 :: pkttransfer_t where
  reach_start: "pkttransfer_reach ov i0 i0"
| reach_send:
    "pkttransfer_reach ov i0 inst \<Longrightarrow>
     pkttransfer_send ov inst payload_p payload_size can_id = Some (res, inst') \<Longrightarrow>
     pkttransfer_reach ov i0 inst'"
| reach_set_can_id_rx:
    "pkttransfer_reach ov i0 inst \<Longrightarrow> ov = PKTTRANSFER_OVER_CAN \<Longrightarrow>
     pkttransfer_set_can_id_rx inst can_id = Some inst' \<Longrightarrow>
     pkttransfer_reach ov i0 inst'"
| reach_task:
    "pkttransfer_reach ov i0 inst \<Longrightarrow>
     pkttransfer_task ov inst hw = Some (inst', calls) \<Longrightarrow>
     pkttransfer_reach ov i0 inst'"

section \<open>Wire format of the specification\<close>

text \<open>
  Written from the specification: stuffing replaces \<open>0x7E\<close> by \<open>0x7D 0x5E\<close> and \<open>0x7D\<close>
  by \<open>0x7D 0x5D\<close>; the body is the payload followed by the low and the high byte of
  its CRC; the frame is the stuffed body between two delimiters.
\<close>

fun stuffed :: "uint8_t list \<Rightarrow> uint8_t list" where
  "stuffed [] = []"
| "stuffed (b # bs) =
     (if b = 0x7E then [0x7D, 0x5E] else if b = 0x7D then [0x7D, 0x5D] else [b]) @ stuffed bs"

definition crc16_le :: "uint8_t list \<Rightarrow> uint8_t list" where
  "crc16_le p = [ucast (crc16_x25 p AND 0xFF), ucast (drop_bit 8 (crc16_x25 p))]"

definition framed_encoding :: "uint8_t list \<Rightarrow> uint8_t list" where
  "framed_encoding p = 0x7E # stuffed (p @ crc16_le p) @ [0x7E]"

section \<open>Invariant\<close>

text \<open>
  What holds of an instance between two calls, when the buffers given to
  \<open>pkttransfer_init\<close> have the \<open>payload_size_max + 2\<close> bytes the configuration asks for.
\<close>

definition pkttransfer_inv :: "pkttransfer_t \<Rightarrow> bool" where
  "pkttransfer_inv inst \<longleftrightarrow>
     payload_size_max inst \<noteq> 0 \<and>
     payload_size_max inst + 2 \<le> length (buf_tx_p inst) \<and>
     payload_size_max inst + 2 \<le> length (buf_rx_p inst) \<and>
     sent_size inst \<le> tx_size inst \<and>
     tx_size inst \<le> payload_size_max inst + 2 \<and>
     (tx_size inst = 0 \<longrightarrow> tx_state inst = PKTTRANSFER_STATE_DELIMITER) \<and>
     (tx_size inst \<noteq> 0 \<longrightarrow> tx_state inst \<noteq> PKTTRANSFER_STATE_BYTE \<longrightarrow>
        sent_size inst < tx_size inst) \<and>
     rx_size inst \<le> payload_size_max inst \<and>
     (rx_state inst = PKTTRANSFER_STATE_DELIMITER \<longrightarrow> rx_size inst = 0)"

text \<open>
  The wire bytes a transmission in progress has still to produce: the part of the
  transmit buffer not yet sent, stuffed, with the delimiters not yet sent.
\<close>

definition tx_pending_wire :: "pkttransfer_t \<Rightarrow> uint8_t list" where
  "tx_pending_wire inst =
     (if tx_size inst = 0 then []
      else let body = drop (sent_size inst) (take (tx_size inst) (buf_tx_p inst)) in
        case tx_state inst of
          PKTTRANSFER_STATE_DELIMITER \<Rightarrow> 0x7E # stuffed body @ [0x7E]
        | PKTTRANSFER_STATE_BYTE \<Rightarrow> stuffed body @ [0x7E]
        | PKTTRANSFER_STATE_ENCODED_BYTE \<Rightarrow>
            (if hd body = 0x7E then 0x5E else 0x5D) # stuffed (tl body) @ [0x7E])"

section \<open>Auxiliary notions for the proofs\<close>

text \<open>The fields that sending leaves alone, and the fields that receiving leaves alone.\<close>

definition rx_side_kept :: "pkttransfer_t \<Rightarrow> pkttransfer_t \<Rightarrow> bool" where
  "rx_side_kept inst inst' \<longleftrightarrow>
     payload_size_max inst' = payload_size_max inst \<and>
     buf_rx_p inst' = buf_rx_p inst \<and> buf_tx_p inst' = buf_tx_p inst \<and>
     rx_state inst' = rx_state inst \<and> rx_size inst' = rx_size inst \<and>
     sof_detections_cnt inst' = sof_detections_cnt inst \<and>
     received_packets_cnt inst' = received_packets_cnt inst \<and>
     can_id_rx inst' = can_id_rx inst \<and> can_id_tx inst' = can_id_tx inst"

definition tx_side_kept :: "pkttransfer_t \<Rightarrow> pkttransfer_t \<Rightarrow> bool" where
  "tx_side_kept inst inst' \<longleftrightarrow>
     payload_size_max inst' = payload_size_max inst \<and>
     buf_tx_p inst' = buf_tx_p inst \<and>
     tx_state inst' = tx_state inst \<and> tx_size inst' = tx_size inst \<and>
     sent_size inst' = sent_size inst \<and>
     sent_packets_cnt inst' = sent_packets_cnt inst \<and>
     can_id_rx inst' = can_id_rx inst \<and> can_id_tx inst' = can_id_tx inst"

text \<open>What one received byte does to an instance that satisfies the invariant.\<close>

definition rx_step_ok :: "pkttransfer_t \<Rightarrow> pkttransfer_t \<Rightarrow> pkttransfer_cb_call list \<Rightarrow> bool" where
  "rx_step_ok inst inst' calls \<longleftrightarrow>
     pkttransfer_inv inst' \<and> tx_side_kept inst inst' \<and>
     length (buf_rx_p inst') = length (buf_rx_p inst) \<and>
     drop (payload_size_max inst) (buf_rx_p inst') = drop (payload_size_max inst) (buf_rx_p inst) \<and>
     (buf_rx_p inst' = buf_rx_p inst \<or>
      rx_size inst < payload_size_max inst \<and>
      (\<exists>v. buf_rx_p inst' = (buf_rx_p inst)[rx_size inst := v])) \<and>
     (calls = [] \<or>
      2 < rx_size inst \<and> buf_rx_p inst' = buf_rx_p inst \<and>
      calls = [APP_PKT_CB (take (rx_size inst - 2) (buf_rx_p inst))] \<and>
      buf_rx_p inst ! (rx_size inst - 2) =
        ucast (pkttransfer_crc16 (take (rx_size inst - 2) (buf_rx_p inst)) AND 0xFF) \<and>
      buf_rx_p inst ! (rx_size inst - 1) =
        ucast (drop_bit 8 (pkttransfer_crc16 (take (rx_size inst - 2) (buf_rx_p inst)))))"

text \<open>
  What a whole call of the task, or any number of received bytes, does to an instance
  that satisfies the invariant: the transmit side apart, the configuration stays, the
  receive buffer keeps its length and its last two bytes, and every payload handed
  to the application has between 1 and \<open>payload_size_max - 2\<close> bytes.
\<close>

definition rx_run_ok :: "pkttransfer_t \<Rightarrow> pkttransfer_t \<Rightarrow> pkttransfer_cb_call list \<Rightarrow> bool" where
  "rx_run_ok inst inst' calls \<longleftrightarrow>
     pkttransfer_inv inst' \<and>
     payload_size_max inst' = payload_size_max inst \<and>
     length (buf_rx_p inst') = length (buf_rx_p inst) \<and>
     drop (payload_size_max inst) (buf_rx_p inst') = drop (payload_size_max inst) (buf_rx_p inst) \<and>
     (\<forall>d \<in> set (app_pkts calls). 1 \<le> length d \<and> length d + 2 \<le> payload_size_max inst)"

text \<open>The answers of the hardware that respect the size of \<open>received_buf\<close>.\<close>

definition hw_ok :: "pkttransfer_over \<Rightarrow> pkttransfer_hw_answers \<Rightarrow> bool" where
  "hw_ok ov hw \<longleftrightarrow>
     (ov = PKTTRANSFER_OVER_CAN \<and> rx_is_ready hw \<longrightarrow>
        length (can_rx hw) \<le> PKTTRANSFER_CAN_MGS_SIZE)"

text \<open>The number of wire bytes one call of the task hands to the hardware, at most.\<close>

definition tx_step_bytes :: "pkttransfer_over \<Rightarrow> pkttransfer_hw_answers \<Rightarrow> nat" where
  "tx_step_bytes ov hw =
     (if tx_is_avail hw
      then (case ov of PKTTRANSFER_OVER_UART \<Rightarrow> 1
            | PKTTRANSFER_OVER_CAN \<Rightarrow> PKTTRANSFER_CAN_MGS_SIZE)
      else 0)"

section \<open>A concrete instance\<close>

text \<open>
  An instance for payloads of up to 4 bytes, right after \<open>pkttransfer_init\<close>, with
  buffers of 6 zero bytes; the same instance after \<open>pkttransfer_send\<close> has accepted the
  payload \<open>01 7D 02 7E\<close>; and a hardware that accepts bytes and has received none.
\<close>

definition ex_inst0 :: pkttransfer_t where
  "ex_inst0 =
     \<lparr>payload_size_max = 4, buf_rx_p = [0, 0, 0, 0, 0, 0], buf_tx_p = [0, 0, 0, 0, 0, 0],
      tx_state = PKTTRANSFER_STATE_DELIMITER, tx_size = 0, sent_size = 0,
      rx_state = PKTTRANSFER_STATE_DELIMITER, rx_size = 0,
      sof_detections_cnt = 0, received_packets_cnt = 0, sent_packets_cnt = 0,
      can_id_rx = 0, can_id_tx = 0\<rparr>"

definition ex_inst1 :: pkttransfer_t where
  "ex_inst1 = ex_inst0\<lparr>buf_tx_p := [0x01, 0x7D, 0x02, 0x7E, 0x8B, 0x36], tx_size := 6\<rparr>"

definition ex_hw_tx :: pkttransfer_hw_answers where
  "ex_hw_tx = \<lparr>tx_is_avail = True, rx_is_ready = False, uart_rx = 0, can_rx = []\<rparr>"

text \<open>
  The second test packet, the two CAN messages that carry its frame, and a hardware
  that has received the bytes \<open>f\<close> and accepts none.
\<close>

definition ex_payload9 :: "uint8_t list" where
  "ex_payload9 = [0x31, 0x32, 0x33, 0x34, 0x35, 0x36, 0x37, 0x38, 0x39]"

definition ex_can_msg1 :: "uint8_t list" where
  "ex_can_msg1 = [0x7E, 0x31, 0x32, 0x33, 0x34, 0x35, 0x36, 0x37]"

definition ex_can_msg2 :: "uint8_t list" where
  "ex_can_msg2 = [0x38, 0x39, 0x6E, 0x90, 0x7E]"

definition ex_hw_rx :: "uint8_t list \<Rightarrow> pkttransfer_hw_answers" where
  "ex_hw_rx f = \<lparr>tx_is_avail = False, rx_is_ready = True, uart_rx = 0, can_rx = f\<rparr>"

text \<open>
  The concrete instance after it has received \<open>7E 00 78 F0\<close>, the frame of the payload
  \<open>00\<close> without its closing delimiter, and after it has received
  \<open>7E 01 7D 5D 02 7D 5E\<close>, the delimiter and the four stuffed payload bytes of the frame
  of \<open>01 7D 02 7E\<close>.
\<close>

definition ex_rx3 :: pkttransfer_t where
  "ex_rx3 = ex_inst0\<lparr>buf_rx_p := [0x00, 0x78, 0xF0, 0, 0, 0],
                      rx_state := PKTTRANSFER_STATE_BYTE, rx_size := 3,
                      sof_detections_cnt := 1\<rparr>"

definition ex_rx_full :: pkttransfer_t where
  "ex_rx_full = ex_inst0\<lparr>buf_rx_p := [0x01, 0x7D, 0x02, 0x7E, 0, 0],
                          rx_state := PKTTRANSFER_STATE_BYTE, rx_size := 4,
                          sof_detections_cnt := 1\<rparr>"

section \<open>Lemmas\<close>

lemmas byte_consts = PKTTRANSFER_FRAME_DELIMITER_BYTE_def PKTTRANSFER_FRAME_ESCAPE_BYTE_def
  PKTTRANSFER_FRAME_ENCODED_DELIMITER_BYTE_def PKTTRANSFER_FRAME_ENCODED_ESCAPE_BYTE_def
  PKTTRANSFER_FRAME_CRC_SIZE_def PKTTRANSFER_CAN_MGS_SIZE_def

lemma c_assert_simps [simp]: "c_assert True = Some ()" "c_assert False = None"
  by (simp_all add: c_assert_def)

lemma c_assert_bind [simp]: "(c_assert b \<bind> f) = (if b then f () else None)"
  by (simp add: c_assert_def)

lemma stuffed_hd_body:
  "k < n \<Longrightarrow> n \<le> length buf \<Longrightarrow> drop k (take n buf) = buf ! k # drop (Suc k) (take n buf)"
  using Cons_nth_drop_Suc [of k "take n buf"] by simp

lemma prepare_byte_step:
  assumes "pkttransfer_inv inst" "tx_size inst \<noteq> 0"
  shows "\<exists>b inst'. pkttransfer_prepare_byte inst = Some (b, inst') \<and>
           tx_pending_wire inst = b # tx_pending_wire inst' \<and>
           pkttransfer_inv inst' \<and>
           rx_side_kept inst inst'"
proof (cases "sent_size inst = tx_size inst")
  case True
  with assms show ?thesis
    by (auto simp: pkttransfer_prepare_byte_def pkttransfer_inv_def tx_pending_wire_def byte_consts rx_side_kept_def)
next
  case False
  with assms have lt: "sent_size inst < tx_size inst" "tx_size inst \<le> length (buf_tx_p inst)"
    by (auto simp: pkttransfer_inv_def)
  note hd = stuffed_hd_body [OF lt]
  show ?thesis
  proof (cases "tx_state inst")
    case PKTTRANSFER_STATE_DELIMITER
    with assms lt False show ?thesis
      by (simp add: pkttransfer_prepare_byte_def pkttransfer_inv_def tx_pending_wire_def byte_consts buf_read_def rx_side_kept_def)
  next
    case PKTTRANSFER_STATE_BYTE
    with assms lt False show ?thesis
      by (simp add: pkttransfer_prepare_byte_def pkttransfer_inv_def tx_pending_wire_def byte_consts buf_read_def hd rx_side_kept_def)
  next
    case PKTTRANSFER_STATE_ENCODED_BYTE
    with assms lt False show ?thesis
      by (simp add: pkttransfer_prepare_byte_def pkttransfer_inv_def tx_pending_wire_def byte_consts buf_read_def hd drop_Suc rx_side_kept_def)
  qed
qed

lemma tx_pending_wire_Nil: "tx_pending_wire inst = [] \<longleftrightarrow> tx_size inst = 0"
  by (simp add: tx_pending_wire_def Let_def split: pkttransfer_frame_state_enum_t.splits)

lemma bytes_for_sending_inv:
  "pkttransfer_inv inst \<Longrightarrow> pkttransfer_bytes_for_sending inst = Some (tx_size inst \<noteq> 0)"
  by (simp add: pkttransfer_bytes_for_sending_def pkttransfer_inv_def)

lemma task_fill_wire:
  assumes "pkttransfer_inv inst" "tx_size inst \<noteq> 0"
  shows "\<exists>inst'. pkttransfer_task_fill (Suc n) inst =
             Some (take (Suc n) (tx_pending_wire inst), inst') \<and>
           tx_pending_wire inst' = drop (Suc n) (tx_pending_wire inst) \<and>
           pkttransfer_inv inst' \<and>
           rx_side_kept inst inst'"
  using assms
proof (induction n arbitrary: inst)
  case 0
  from prepare_byte_step [OF 0] obtain b inst1 where
    p: "pkttransfer_prepare_byte inst = Some (b, inst1)"
       "tx_pending_wire inst = b # tx_pending_wire inst1" "pkttransfer_inv inst1"
       "rx_side_kept inst inst1"
    by blast
  then show ?case
    by (auto simp: bytes_for_sending_inv tx_pending_wire_Nil)
next
  case (Suc n)
  from prepare_byte_step [OF Suc.prems] obtain b inst1 where
    p: "pkttransfer_prepare_byte inst = Some (b, inst1)"
       "tx_pending_wire inst = b # tx_pending_wire inst1" "pkttransfer_inv inst1"
       "rx_side_kept inst inst1"
    by blast
  show ?case
  proof (cases "tx_size inst1 = 0")
    case True
    then have "tx_pending_wire inst1 = []"
      by (simp add: tx_pending_wire_Nil)
    with p True show ?thesis
      by (simp add: bytes_for_sending_inv)
  next
    case False
    from Suc.IH [OF p(3) False] obtain inst2 where
      q: "pkttransfer_task_fill (Suc n) inst1 = Some (take (Suc n) (tx_pending_wire inst1), inst2)"
         "tx_pending_wire inst2 = drop (Suc n) (tx_pending_wire inst1)" "pkttransfer_inv inst2"
         "rx_side_kept inst1 inst2"
      by blast
    have "rx_side_kept inst inst2"
      using p(4) q(4) by (simp add: rx_side_kept_def)
    with p q False show ?thesis
      by (simp add: bytes_for_sending_inv del: pkttransfer_task_fill.simps(2))
         (simp add: bytes_for_sending_inv)
  qed
qed


lemma c255_8: "(255::uint16_t) = mask 8"
  by (simp add: mask_eq_exp_minus_1)

lemma c65280_8: "(65280::uint16_t) = push_bit 8 (mask 8)"
  by (simp add: mask_eq_exp_minus_1)

lemma c65535_m1: "(65535::uint16_t) = - 1"
  by simp

lemma crc_join_lo: "ucast ((push_bit 8 (ucast (hi::uint8_t)) OR ucast (lo::uint8_t) :: uint16_t) AND 0xFF) = lo"
  unfolding c255_8 by (rule bit_word_eqI) (auto simp add: bit_simps)

lemma crc_join_hi: "ucast (drop_bit 8 (push_bit 8 (ucast (hi::uint8_t)) OR ucast (lo::uint8_t) :: uint16_t)) = hi"
  by (rule bit_word_eqI) (auto simp add: bit_simps dest: bit_imp_le_length)

lemma crc_split_join:
  "push_bit 8 (ucast (ucast (drop_bit 8 (c::uint16_t)) :: uint8_t)) OR ucast (ucast (c AND 0xFF) :: uint8_t) = c"
  unfolding c255_8 by (rule bit_word_eqI) (auto simp add: bit_simps)

lemma process_frame_cases:
  assumes "pkttransfer_inv inst"
  shows "pkttransfer_process_frame inst = Some (inst, []) \<or>
         (2 < rx_size inst \<and>
          pkttransfer_process_frame inst =
            Some (inst\<lparr>received_packets_cnt := received_packets_cnt inst + 1\<rparr>,
                  [APP_PKT_CB (take (rx_size inst - 2) (buf_rx_p inst))]) \<and>
          buf_rx_p inst ! (rx_size inst - 2) =
            ucast (pkttransfer_crc16 (take (rx_size inst - 2) (buf_rx_p inst)) AND 0xFF) \<and>
          buf_rx_p inst ! (rx_size inst - 1) =
            ucast (drop_bit 8 (pkttransfer_crc16 (take (rx_size inst - 2) (buf_rx_p inst)))))"
proof -
  from assms have len: "rx_size inst \<le> payload_size_max inst"
      "payload_size_max inst + 2 \<le> length (buf_rx_p inst)"
    by (simp_all add: pkttransfer_inv_def)
  show ?thesis
  proof (cases "rx_size inst \<le> 2")
    case True
    with len show ?thesis
      by (simp add: pkttransfer_process_frame_def byte_consts)
  next
    case False
    let ?hi = "buf_rx_p inst ! (rx_size inst - 1)"
    let ?lo = "buf_rx_p inst ! (rx_size inst - 2)"
    let ?crc = "pkttransfer_crc16 (take (rx_size inst - 2) (buf_rx_p inst))"
    from len have bnd: "rx_size inst - 1 < length (buf_rx_p inst)"
        "rx_size inst - 2 < length (buf_rx_p inst)"
      by arith+
    have pf: "pkttransfer_process_frame inst =
        (if (push_bit 8 (ucast ?hi) OR ucast ?lo :: uint16_t) \<noteq> ?crc then Some (inst, [])
         else Some (inst\<lparr>received_packets_cnt := received_packets_cnt inst + 1\<rparr>,
                    [APP_PKT_CB (take (rx_size inst - 2) (buf_rx_p inst))]))"
      using len False bnd
      by (simp add: pkttransfer_process_frame_def byte_consts buf_read_def)
    show ?thesis
    proof (cases "(push_bit 8 (ucast ?hi) OR ucast ?lo :: uint16_t) = ?crc")
      case True
      have "?lo = ucast (?crc AND 0xFF)"
        by (subst True [symmetric]) (rule crc_join_lo [symmetric])
      moreover have "?hi = ucast (drop_bit 8 ?crc)"
        by (subst True [symmetric]) (rule crc_join_hi [symmetric])
      moreover have "2 < rx_size inst"
        using False by simp
      moreover have "pkttransfer_process_frame inst =
          Some (inst\<lparr>received_packets_cnt := received_packets_cnt inst + 1\<rparr>,
                [APP_PKT_CB (take (rx_size inst - 2) (buf_rx_p inst))])"
        by (subst pf) (simp only: True not_True_eq_False if_False simp_thms)
      ultimately show ?thesis
        by blast
    next
      case ne: False
      have "pkttransfer_process_frame inst = Some (inst, [])"
        by (subst pf) (simp only: ne not_False_eq_True if_True simp_thms)
      then show ?thesis
        by blast
    qed
  qed
qed

lemma tx_bytes_simps [simp]:
  "tx_bytes [] = []" "tx_bytes (a @ b) = tx_bytes a @ tx_bytes b"
  "tx_bytes (UART_TX_CB x # cs) = x # tx_bytes cs"
  "tx_bytes (CAN_TX_CB bs cid # cs) = bs @ tx_bytes cs"
  "tx_bytes (UART_RX_CB # cs) = tx_bytes cs"
  "tx_bytes (CAN_RX_CB cid # cs) = tx_bytes cs"
  "tx_bytes (APP_PKT_CB p # cs) = tx_bytes cs"
  by (simp_all add: tx_bytes_def)

lemma app_pkts_simps [simp]:
  "app_pkts [] = []" "app_pkts (a @ b) = app_pkts a @ app_pkts b"
  "app_pkts (UART_TX_CB x # cs) = app_pkts cs"
  "app_pkts (CAN_TX_CB bs cid # cs) = app_pkts cs"
  "app_pkts (UART_RX_CB # cs) = app_pkts cs"
  "app_pkts (CAN_RX_CB cid # cs) = app_pkts cs"
  "app_pkts (APP_PKT_CB p # cs) = p # app_pkts cs"
  by (simp_all add: app_pkts_def)

lemma process_byte_step:
  assumes "pkttransfer_inv inst"
  shows "\<exists>inst' calls. pkttransfer_process_byte inst b = Some (inst', calls) \<and>
           rx_step_ok inst inst' calls"
proof (cases "rx_state inst")
  case PKTTRANSFER_STATE_DELIMITER
  with assms show ?thesis
    by (simp add: pkttransfer_process_byte_def pkttransfer_inv_def byte_consts
          rx_step_ok_def tx_side_kept_def)
next
  case PKTTRANSFER_STATE_BYTE
  show ?thesis
  proof (cases "b = 0x7E")
    case True
    from process_frame_cases [OF assms] PKTTRANSFER_STATE_BYTE True assms show ?thesis
      by (auto simp: pkttransfer_process_byte_def pkttransfer_inv_def byte_consts
            rx_step_ok_def tx_side_kept_def)
  next
    case False
    with PKTTRANSFER_STATE_BYTE assms show ?thesis
      by (auto simp: pkttransfer_process_byte_def pkttransfer_inv_def byte_consts
            rx_step_ok_def tx_side_kept_def buf_write_def drop_update_cancel)
  qed
next
  case PKTTRANSFER_STATE_ENCODED_BYTE
  with assms show ?thesis
    by (auto simp: pkttransfer_process_byte_def pkttransfer_inv_def byte_consts
          rx_step_ok_def tx_side_kept_def buf_write_def drop_update_cancel Let_def)
qed


subsection \<open>The CRC of the code is the CRC of the specification\<close>

lemma crc16_shift_eq: "crc16_shift r = x25_shift r"
  by (simp add: crc16_shift_def x25_shift_def and_one_eq mod_2_eq_odd bit_0)

lemma crc16_for_eq: "crc16_for n r = (x25_shift ^^ n) r"
  by (induction n arbitrary: r) (simp_all add: crc16_shift_eq funpow_swap1)

lemma ucast_low_byte: "(ucast (b :: uint8_t) :: uint16_t) AND 0x00FF = ucast b"
  unfolding c255_8 by (rule bit_word_eqI) (auto simp add: bit_simps dest: bit_imp_le_length)

lemma crc16_while_eq: "crc16_while data r = foldl x25_byte r data"
  by (induction data arbitrary: r) (simp_all add: crc16_for_eq x25_byte_def ucast_low_byte)

lemma crc16_out_bytes:
  "push_bit 8 (ucast ((ucast (drop_bit 8 ((c::uint16_t) AND 0xFF00)) :: uint8_t) XOR
                       ucast ((0xFFFF::uint16_t) AND 0x00FF)) AND 0x00FF) OR
   ucast ((ucast (c AND 0x00FF) :: uint8_t) XOR
          ucast (drop_bit 8 ((0xFFFF::uint16_t) AND 0xFF00))) = c XOR 0xFFFF"
  unfolding c255_8 c65280_8 c65535_m1
  by (rule bit_word_eqI) (auto simp add: bit_simps)

lemma pkttransfer_crc16_eq: "pkttransfer_crc16 data = crc16_x25 data"
  unfolding pkttransfer_crc16_def crc16_x25_def Let_def crc16_out_bytes
  by (simp add: crc16_while_eq)

lemma tx_pending_wire_cong:
  "tx_side_kept inst inst' \<Longrightarrow> tx_pending_wire inst' = tx_pending_wire inst"
  by (simp add: tx_side_kept_def tx_pending_wire_def)

lemma rx_step_run:
  assumes "pkttransfer_inv inst" "rx_step_ok inst inst' calls"
  shows "rx_run_ok inst inst' calls \<and> tx_side_kept inst inst' \<and> tx_bytes calls = []"
proof -
  from assms(1) have le: "rx_size inst \<le> length (buf_rx_p inst)"
      "rx_size inst \<le> payload_size_max inst"
    by (simp_all add: pkttransfer_inv_def)
  from assms(2) have kept: "tx_side_kept inst inst'" and inv': "pkttransfer_inv inst'"
    and len: "length (buf_rx_p inst') = length (buf_rx_p inst)"
    and tail: "drop (payload_size_max inst) (buf_rx_p inst') =
               drop (payload_size_max inst) (buf_rx_p inst)"
    and calls: "calls = [] \<or>
        2 < rx_size inst \<and> calls = [APP_PKT_CB (take (rx_size inst - 2) (buf_rx_p inst))]"
    unfolding rx_step_ok_def by blast+
  from kept have pm: "payload_size_max inst' = payload_size_max inst"
    by (simp add: tx_side_kept_def)
  from calls have tb: "tx_bytes calls = []"
    by auto
  from calls le have
    "\<forall>d \<in> set (app_pkts calls). 1 \<le> length d \<and> length d + 2 \<le> payload_size_max inst"
    by auto
  with inv' pm len tail have "rx_run_ok inst inst' calls"
    unfolding rx_run_ok_def by blast
  with kept tb show ?thesis
    by blast
qed

lemma rx_run_ok_trans:
  "rx_run_ok a b c1 \<Longrightarrow> rx_run_ok b c c2 \<Longrightarrow> rx_run_ok a c (c1 @ c2)"
  by (auto simp: rx_run_ok_def)

lemma tx_side_kept_trans:
  "tx_side_kept a b \<Longrightarrow> tx_side_kept b c \<Longrightarrow> tx_side_kept a c"
  by (simp add: tx_side_kept_def)

lemma process_bytes_run:
  assumes "pkttransfer_inv inst"
  shows "\<exists>inst' calls. pkttransfer_process_bytes inst bs = Some (inst', calls) \<and>
           rx_run_ok inst inst' calls \<and> tx_side_kept inst inst' \<and> tx_bytes calls = []"
  using assms
proof (induction bs arbitrary: inst)
  case Nil
  then show ?case
    by (simp add: rx_run_ok_def tx_side_kept_def)
next
  case (Cons b bs)
  from process_byte_step [OF Cons.prems] obtain inst1 c1 where
    s: "pkttransfer_process_byte inst b = Some (inst1, c1)" "rx_step_ok inst inst1 c1"
    by blast
  from rx_step_run [OF Cons.prems s(2)] have
    r: "rx_run_ok inst inst1 c1" "tx_side_kept inst inst1" "tx_bytes c1 = []"
    by simp_all
  from r(1) have "pkttransfer_inv inst1"
    by (simp add: rx_run_ok_def)
  from Cons.IH [OF this] obtain inst2 c2 where
    t: "pkttransfer_process_bytes inst1 bs = Some (inst2, c2)" "rx_run_ok inst1 inst2 c2"
       "tx_side_kept inst1 inst2" "tx_bytes c2 = []"
    by blast
  from s(1) t(1) r t rx_run_ok_trans [OF r(1) t(2)] tx_side_kept_trans [OF r(2) t(3)]
  show ?case
    by simp
qed

lemma task_rx_run:
  assumes "pkttransfer_inv inst" "hw_ok ov hw"
  shows "\<exists>inst' calls. pkttransfer_task_rx ov inst hw = Some (inst', calls) \<and>
           rx_run_ok inst inst' calls \<and> tx_side_kept inst inst' \<and> tx_bytes calls = []"
proof (cases "rx_is_ready hw")
  case False
  with assms show ?thesis
    by (simp add: pkttransfer_task_rx_def rx_run_ok_def tx_side_kept_def)
next
  case True
  show ?thesis
  proof (cases ov)
    case PKTTRANSFER_OVER_UART
    from process_byte_step [OF assms(1)] obtain inst1 c1 where
      s: "pkttransfer_process_byte inst (uart_rx hw) = Some (inst1, c1)" "rx_step_ok inst inst1 c1"
      by blast
    from rx_step_run [OF assms(1) s(2)] s(1) True PKTTRANSFER_OVER_UART show ?thesis
      by (simp add: pkttransfer_task_rx_def rx_run_ok_def)
  next
    case PKTTRANSFER_OVER_CAN
    from process_bytes_run [OF assms(1)] obtain inst1 c1 where
      s: "pkttransfer_process_bytes inst (can_rx hw) = Some (inst1, c1)"
         "rx_run_ok inst inst1 c1" "tx_side_kept inst inst1" "tx_bytes c1 = []"
      by blast
    with assms(2) True PKTTRANSFER_OVER_CAN show ?thesis
      by (simp add: pkttransfer_task_rx_def rx_run_ok_def hw_ok_def)
  qed
qed

lemma task_rx_None:
  "\<not> hw_ok ov hw \<Longrightarrow> pkttransfer_task_rx ov inst hw = None"
  by (simp add: pkttransfer_task_rx_def hw_ok_def)

lemma rx_side_kept_inv_run:
  "pkttransfer_inv inst' \<Longrightarrow> rx_side_kept inst inst' \<Longrightarrow> rx_run_ok inst inst' []"
  by (simp add: rx_run_ok_def rx_side_kept_def)

lemma task_fill_wire_pos:
  assumes "pkttransfer_inv inst" "tx_size inst \<noteq> 0" "0 < n"
  shows "\<exists>inst'. pkttransfer_task_fill n inst = Some (take n (tx_pending_wire inst), inst') \<and>
           tx_pending_wire inst' = drop n (tx_pending_wire inst) \<and>
           pkttransfer_inv inst' \<and> rx_side_kept inst inst'"
proof -
  from assms(3) obtain m where "n = Suc m"
    by (cases n) simp_all
  with task_fill_wire [OF assms(1,2), of m] show ?thesis
    by (simp only:)
qed

lemma task_tx_run:
  assumes "pkttransfer_inv inst"
  shows "\<exists>inst' calls. pkttransfer_task_tx ov inst hw = Some (inst', calls) \<and>
           pkttransfer_inv inst' \<and> rx_side_kept inst inst' \<and> app_pkts calls = [] \<and>
           tx_bytes calls = take (tx_step_bytes ov hw) (tx_pending_wire inst) \<and>
           tx_pending_wire inst' = drop (tx_step_bytes ov hw) (tx_pending_wire inst)"
proof (cases "tx_size inst \<noteq> 0 \<and> tx_is_avail hw")
  case False
  then have "tx_step_bytes ov hw = 0 \<or> tx_pending_wire inst = []"
    by (auto simp: tx_step_bytes_def tx_pending_wire_Nil)
  with False assms show ?thesis
    by (auto simp: pkttransfer_task_tx_def bytes_for_sending_inv rx_side_kept_def)
next
  case True
  then have ne: "tx_size inst \<noteq> 0" and av: "tx_is_avail hw"
    by simp_all
  show ?thesis
  proof (cases ov)
    case PKTTRANSFER_OVER_UART
    from prepare_byte_step [OF assms ne] obtain b inst1 where
      "pkttransfer_prepare_byte inst = Some (b, inst1)"
      "tx_pending_wire inst = b # tx_pending_wire inst1"
      "pkttransfer_inv inst1" "rx_side_kept inst inst1"
      by blast
    with ne av assms PKTTRANSFER_OVER_UART show ?thesis
      by (simp add: pkttransfer_task_tx_def bytes_for_sending_inv tx_step_bytes_def)
  next
    case PKTTRANSFER_OVER_CAN
    have "0 < (8::nat)"
      by simp
    from task_fill_wire_pos [OF assms ne this] obtain inst1 where
      "pkttransfer_task_fill 8 inst = Some (take 8 (tx_pending_wire inst), inst1)"
      "tx_pending_wire inst1 = drop 8 (tx_pending_wire inst)"
      "pkttransfer_inv inst1" "rx_side_kept inst inst1"
      by blast
    with ne av assms PKTTRANSFER_OVER_CAN show ?thesis
      by (simp add: pkttransfer_task_tx_def bytes_for_sending_inv tx_step_bytes_def byte_consts
            rx_side_kept_def)
  qed
qed

lemma task_run:
  assumes "pkttransfer_inv inst" "hw_ok ov hw"
  shows "\<exists>inst' calls. pkttransfer_task ov inst hw = Some (inst', calls) \<and>
           rx_run_ok inst inst' calls \<and>
           tx_bytes calls = take (tx_step_bytes ov hw) (tx_pending_wire inst) \<and>
           tx_pending_wire inst' = drop (tx_step_bytes ov hw) (tx_pending_wire inst)"
proof -
  from task_tx_run [OF assms(1)] obtain inst1 c1 where
    t: "pkttransfer_task_tx ov inst hw = Some (inst1, c1)" "pkttransfer_inv inst1"
       "rx_side_kept inst inst1" "app_pkts c1 = []"
       "tx_bytes c1 = take (tx_step_bytes ov hw) (tx_pending_wire inst)"
       "tx_pending_wire inst1 = drop (tx_step_bytes ov hw) (tx_pending_wire inst)"
    by blast
  from task_rx_run [OF t(2) assms(2)] obtain inst2 c2 where
    r: "pkttransfer_task_rx ov inst1 hw = Some (inst2, c2)" "rx_run_ok inst1 inst2 c2"
       "tx_side_kept inst1 inst2" "tx_bytes c2 = []"
    by blast
  from assms(1) have init: "pkttransfer_is_init inst"
    by (simp add: pkttransfer_inv_def pkttransfer_is_init_def)
  have run: "pkttransfer_task ov inst hw = Some (inst2, c1 @ c2)"
    using init t(1) r(1) by (simp add: pkttransfer_task_def)
  from t(3) r(2) t(4) have "rx_run_ok inst inst2 (c1 @ c2)"
    by (simp add: rx_run_ok_def rx_side_kept_def)
  moreover have "tx_bytes (c1 @ c2) = take (tx_step_bytes ov hw) (tx_pending_wire inst)"
    using t(5) r(4) by simp
  moreover have "tx_pending_wire inst2 = drop (tx_step_bytes ov hw) (tx_pending_wire inst)"
    using tx_pending_wire_cong [OF r(3)] t(6) by simp
  ultimately show ?thesis
    using run by blast
qed

lemma task_None:
  assumes "\<not> hw_ok ov hw" 
  shows "pkttransfer_task ov inst hw = None"
proof (cases "pkttransfer_is_init inst")
  case False
  then show ?thesis
    by (simp add: pkttransfer_task_def)
next
  case True
  show ?thesis
  proof (cases "pkttransfer_task_tx ov inst hw")
    case None
    with True show ?thesis
      by (simp add: pkttransfer_task_def)
  next
    case (Some r)
    with True task_rx_None [OF assms] show ?thesis
      by (cases r) (simp add: pkttransfer_task_def)
  qed
qed

lemma task_inv:
  assumes "pkttransfer_task ov inst hw = Some (inst', calls)" "pkttransfer_inv inst"
  shows "rx_run_ok inst inst' calls"
proof (cases "hw_ok ov hw")
  case True
  from task_run [OF assms(2) True] assms(1) show ?thesis
    by auto
next
  case False
  from task_None [OF False] assms(1) show ?thesis
    by simp
qed

lemma set_can_id_rx_run:
  assumes "pkttransfer_inv inst"
  shows "pkttransfer_set_can_id_rx inst cid = Some (inst\<lparr>can_id_rx := cid\<rparr>) \<and>
         rx_run_ok inst (inst\<lparr>can_id_rx := cid\<rparr>) []"
  using assms
  by (simp add: pkttransfer_set_can_id_rx_def pkttransfer_is_init_def pkttransfer_inv_def
        rx_run_ok_def)

lemma buf_after_send:
  assumes "n \<le> length p" "n + 2 \<le> length buf"
  shows "(take n p @ drop n buf)[n := a, Suc n := b] = take n p @ [a, b] @ drop (n + 2) buf"
proof -
  from assms(2) have d: "drop n buf = buf ! n # buf ! Suc n # drop (n + 2) buf"
    using Cons_nth_drop_Suc [of n buf] Cons_nth_drop_Suc [of "Suc n" buf] by simp
  from assms(1) have l: "min (length p) n = n"
    by simp
  show ?thesis
    by (simp add: list_update_append l d)
qed

lemma send_reject:
  assumes "pkttransfer_is_init inst" "payload_size_max inst < n \<or> tx_size inst \<noteq> 0"
  shows "pkttransfer_send ov inst p n cid = Some (PKTTRANSFER_ERR_TX_OVF, inst)"
  using assms by (auto simp: pkttransfer_send_def)

lemma send_accept:
  assumes "pkttransfer_inv inst" "tx_size inst = 0" "n \<le> payload_size_max inst" "n \<le> length p"
  shows "\<exists>inst'. pkttransfer_send ov inst p n cid = Some (PKTTRANSFER_ERR_OK, inst') \<and>
           inst' = inst\<lparr>buf_tx_p := take n p @ crc16_le (take n p) @ drop (n + 2) (buf_tx_p inst),
                        tx_size := n + 2, sent_size := 0,
                        can_id_tx := (case ov of PKTTRANSFER_OVER_UART \<Rightarrow> can_id_tx inst
                                      | PKTTRANSFER_OVER_CAN \<Rightarrow> cid)\<rparr> \<and>
           pkttransfer_inv inst' \<and>
           tx_pending_wire inst' = framed_encoding (take n p)"
proof -
  let ?buf = "take n p @ crc16_le (take n p) @ drop (n + 2) (buf_tx_p inst)"
  let ?inst' = "inst\<lparr>buf_tx_p := ?buf, tx_size := n + 2, sent_size := 0,
                     can_id_tx := (case ov of PKTTRANSFER_OVER_UART \<Rightarrow> can_id_tx inst
                                   | PKTTRANSFER_OVER_CAN \<Rightarrow> cid)\<rparr>"
  from assms have len: "n + 2 \<le> length (buf_tx_p inst)" and init: "pkttransfer_is_init inst"
    and st: "tx_state inst = PKTTRANSFER_STATE_DELIMITER"
    by (simp_all add: pkttransfer_inv_def pkttransfer_is_init_def)
  from assms(4) have tk: "take n (take n p @ drop n (buf_tx_p inst)) = take n p"
    by simp
  have send: "pkttransfer_send ov inst p n cid = Some (PKTTRANSFER_ERR_OK, ?inst')"
    using assms len init buf_after_send [OF assms(4) len]
    by (cases ov)
       (simp_all add: pkttransfer_send_def buf_memcpy_def buf_write_def byte_consts Let_def tk
          pkttransfer_crc16_eq crc16_le_def)
  have inv: "pkttransfer_inv ?inst'"
    using assms len by (auto simp: pkttransfer_inv_def crc16_le_def)
  have "take (n + 2) ?buf = take n p @ crc16_le (take n p)"
    using assms(4) by (simp add: crc16_le_def)
  then have wire: "tx_pending_wire ?inst' = framed_encoding (take n p)"
    using st by (simp add: tx_pending_wire_def framed_encoding_def)
  from send inv wire show ?thesis
    by blast
qed

lemma send_inv:
  assumes "pkttransfer_send ov inst p n cid = Some (res, inst')" "pkttransfer_inv inst"
  shows "rx_run_ok inst inst' []"
proof -
  from assms(2) have init: "pkttransfer_is_init inst"
    by (simp add: pkttransfer_inv_def pkttransfer_is_init_def)
  show ?thesis
  proof (cases "payload_size_max inst < n \<or> tx_size inst \<noteq> 0")
    case True
    from send_reject [OF init True] assms show ?thesis
      by (simp add: rx_run_ok_def)
  next
    case False
    show ?thesis
    proof (cases "n \<le> length p")
      case True
      from False have "tx_size inst = 0" "n \<le> payload_size_max inst"
        by simp_all
      from send_accept [OF assms(2) this True, of ov cid] assms(1) show ?thesis
        by (auto simp: rx_run_ok_def)
    next
      case nl: False
      with False init have "pkttransfer_send ov inst p n cid = None"
        by (simp add: pkttransfer_send_def buf_memcpy_def)
      with assms(1) show ?thesis
        by simp
    qed
  qed
qed

lemma rx_run_ok_refl: "pkttransfer_inv inst \<Longrightarrow> rx_run_ok inst inst []"
  by (simp add: rx_run_ok_def)

lemma rx_run_ok_state: "rx_run_ok a b calls \<Longrightarrow> rx_run_ok a b []"
  by (simp add: rx_run_ok_def)

lemma init_inv:
  assumes "pkttransfer_init pm brx btx = Some i0" "pm + 2 \<le> length brx" "pm + 2 \<le> length btx"
  shows "pkttransfer_inv i0 \<and> payload_size_max i0 = pm \<and> buf_rx_p i0 = brx \<and> buf_tx_p i0 = btx \<and>
         tx_size i0 = 0 \<and> rx_size i0 = 0 \<and> rx_state i0 = PKTTRANSFER_STATE_DELIMITER"
  using assms by (auto simp: pkttransfer_init_def pkttransfer_inv_def split: if_splits)

lemma reach_run:
  assumes "pkttransfer_reach ov i0 inst" "pkttransfer_inv i0"
  shows "rx_run_ok i0 inst []"
  using assms
proof (induction rule: pkttransfer_reach.induct)
  case reach_start
  then show ?case
    by (rule rx_run_ok_refl)
next
  case (reach_send inst payload_p payload_size can_id res inst')
  then have a: "rx_run_ok i0 inst []"
    by simp
  then have "pkttransfer_inv inst"
    by (simp add: rx_run_ok_def)
  from send_inv [OF reach_send.hyps(2) this] rx_run_ok_trans [OF a] show ?case
    by fastforce
next
  case (reach_set_can_id_rx inst can_id inst')
  then have a: "rx_run_ok i0 inst []"
    by simp
  then have "pkttransfer_inv inst"
    by (simp add: rx_run_ok_def)
  from set_can_id_rx_run [OF this, of can_id] reach_set_can_id_rx.hyps(3)
    rx_run_ok_trans [OF a] show ?case
    by fastforce
next
  case (reach_task inst hw inst' calls)
  then have a: "rx_run_ok i0 inst []"
    by simp
  then have "pkttransfer_inv inst"
    by (simp add: rx_run_ok_def)
  from task_inv [OF reach_task.hyps(2) this] have "rx_run_ok inst inst' []"
    by (rule rx_run_ok_state)
  from rx_run_ok_trans [OF a this] show ?case
    by simp
qed

lemma pump_run:
  assumes "pkttransfer_inv inst" "\<forall>hw \<in> set hws. hw_ok ov hw"
    "length (tx_pending_wire inst) \<le> sum_list (map (tx_step_bytes ov) hws)"
  shows "\<exists>inst' calls. pkttransfer_pump ov hws inst = Some (inst', calls) \<and>
           tx_size inst' = 0 \<and> tx_bytes calls = tx_pending_wire inst \<and>
           rx_run_ok inst inst' calls"
  using assms
proof (induction hws arbitrary: inst)
  case Nil
  then have "tx_size inst = 0"
    by (simp add: tx_pending_wire_Nil)
  with Nil.prems(1) show ?case
    by (simp add: rx_run_ok_refl tx_pending_wire_def)
next
  case (Cons hw hws)
  show ?case
  proof (cases "tx_size inst = 0")
    case True
    with Cons.prems(1) show ?thesis
      by (simp add: rx_run_ok_refl tx_pending_wire_def)
  next
    case False
    from Cons.prems(2) have ok: "hw_ok ov hw" and oks: "\<forall>hw \<in> set hws. hw_ok ov hw"
      by simp_all
    from task_run [OF Cons.prems(1) ok] obtain inst1 c1 where
      t: "pkttransfer_task ov inst hw = Some (inst1, c1)" "rx_run_ok inst inst1 c1"
         "tx_bytes c1 = take (tx_step_bytes ov hw) (tx_pending_wire inst)"
         "tx_pending_wire inst1 = drop (tx_step_bytes ov hw) (tx_pending_wire inst)"
      by blast
    from t(2) have inv1: "pkttransfer_inv inst1"
      by (simp add: rx_run_ok_def)
    from t(4) Cons.prems(3) have
      "length (tx_pending_wire inst1) \<le> sum_list (map (tx_step_bytes ov) hws)"
      by simp
    from Cons.IH [OF inv1 oks this] obtain inst2 c2 where
      p: "pkttransfer_pump ov hws inst1 = Some (inst2, c2)" "tx_size inst2 = 0"
         "tx_bytes c2 = tx_pending_wire inst1" "rx_run_ok inst1 inst2 c2"
      by blast
    have "pkttransfer_pump ov (hw # hws) inst = Some (inst2, c1 @ c2)"
      using False t(1) p(1) by simp
    moreover have "tx_bytes (c1 @ c2) = tx_pending_wire inst"
      using t(3,4) p(3) by simp
    moreover note p(2) rx_run_ok_trans [OF t(2) p(4)]
    ultimately show ?thesis
      by blast
  qed
qed

lemma tx_capacity:
  assumes "\<forall>hw \<in> set hws. tx_is_avail hw"
  shows "length hws \<le> sum_list (map (tx_step_bytes ov) hws)"
  using assms
  by (induction hws) (auto simp: tx_step_bytes_def byte_consts split: pkttransfer_over.splits)

lemma ex_init: "pkttransfer_init 4 [0, 0, 0, 0, 0, 0] [0, 0, 0, 0, 0, 0] = Some ex_inst0"
  by (simp add: pkttransfer_init_def ex_inst0_def)

lemma ex_send:
  "pkttransfer_send PKTTRANSFER_OVER_UART ex_inst0 [0x01, 0x7D, 0x02, 0x7E] 4 0 =
     Some (PKTTRANSFER_ERR_OK, ex_inst1)"
  by code_simp

lemma ex_crc: "pkttransfer_crc16 [0x01, 0x7D, 0x02, 0x7E] = 0x368B"
  by code_simp

lemma ex_frame:
  "framed_encoding [0x01, 0x7D, 0x02, 0x7E] =
     [0x7E, 0x01, 0x7D, 0x5D, 0x02, 0x7D, 0x5E, 0x8B, 0x36, 0x7E]"
  unfolding framed_encoding_def crc16_le_def pkttransfer_crc16_eq [symmetric] ex_crc
  by simp

lemma ex_task:
  "pkttransfer_task PKTTRANSFER_OVER_UART ex_inst1 ex_hw_tx =
     Some (ex_inst1\<lparr>tx_state := PKTTRANSFER_STATE_BYTE\<rparr>, [UART_TX_CB 0x7E])"
  by code_simp

lemma ex_len: "(4::nat) + 2 \<le> length [0, 0, 0, 0, 0, 0 :: uint8_t]"
  by simp

lemma empty_crc: "pkttransfer_crc16 [] = 0"
  by code_simp

lemma empty_frame: "framed_encoding [] = [0x7E, 0, 0, 0x7E]"
  unfolding framed_encoding_def crc16_le_def pkttransfer_crc16_eq [symmetric] empty_crc
  by simp

lemma reach_inv:
  assumes "pkttransfer_init pm brx btx = Some i0"
    and "pm + 2 \<le> length brx" and "pm + 2 \<le> length btx"
    and "pkttransfer_reach ov i0 inst"
  shows "pkttransfer_inv inst \<and> payload_size_max inst = pm \<and>
         length (buf_rx_p inst) = length brx \<and> drop pm (buf_rx_p inst) = drop pm brx"
proof -
  from init_inv [OF assms(1-3)] have i: "pkttransfer_inv i0" "payload_size_max i0 = pm"
      "buf_rx_p i0 = brx"
    by simp_all
  from reach_run [OF assms(4) i(1)] i(2,3) show ?thesis
    by (simp add: rx_run_ok_def)
qed

lemma ex_hw_tx_ok: "tx_is_avail ex_hw_tx \<and> hw_ok ov ex_hw_tx"
  by (simp add: ex_hw_tx_def hw_ok_def)

lemma process_byte_plain:
  assumes "rx_state inst = PKTTRANSFER_STATE_BYTE" "b \<noteq> 0x7E" "b \<noteq> 0x7D"
    and "rx_size inst < payload_size_max inst" "payload_size_max inst \<le> length (buf_rx_p inst)"
  shows "pkttransfer_process_byte inst b =
           Some (inst\<lparr>buf_rx_p := (buf_rx_p inst)[rx_size inst := b],
                      rx_size := rx_size inst + 1\<rparr>, [])"
  using assms by (simp add: pkttransfer_process_byte_def byte_consts buf_write_def)

lemma process_byte_escaped:
  assumes "rx_state inst = PKTTRANSFER_STATE_BYTE" "b = 0x7E \<or> b = 0x7D"
    and "rx_size inst < payload_size_max inst" "payload_size_max inst \<le> length (buf_rx_p inst)"
  shows "pkttransfer_process_bytes inst [0x7D, if b = 0x7E then 0x5E else 0x5D] =
           Some (inst\<lparr>buf_rx_p := (buf_rx_p inst)[rx_size inst := b],
                      rx_size := rx_size inst + 1\<rparr>, [])"
  using assms
  by (cases inst) (auto simp: pkttransfer_process_byte_def byte_consts buf_write_def)

lemma process_bytes_append:
  "pkttransfer_process_bytes inst (xs @ ys) = do {
     (inst1, c1) \<leftarrow> pkttransfer_process_bytes inst xs;
     (inst2, c2) \<leftarrow> pkttransfer_process_bytes inst1 ys;
     Some (inst2, c1 @ c2)
   }"
proof (induction xs arbitrary: inst)
  case Nil
  show ?case
    by (cases "pkttransfer_process_bytes inst ys") auto
next
  case (Cons x xs)
  show ?case
  proof (cases "pkttransfer_process_byte inst x")
    case None
    then show ?thesis
      by simp
  next
    case (Some r)
    obtain i1 c1 where r: "r = (i1, c1)"
      by (cases r)
    show ?thesis
    proof (cases "pkttransfer_process_bytes i1 xs")
      case None
      with Some r Cons.IH [of i1] show ?thesis
        by simp
    next
      case s2: (Some r2)
      obtain i2 c2 where r2: "r2 = (i2, c2)"
        by (cases r2)
      show ?thesis
      proof (cases "pkttransfer_process_bytes i2 ys")
        case None
        with Some r s2 r2 Cons.IH [of i1] show ?thesis
          by simp
      next
        case s3: (Some r3)
        with Some r s2 r2 Cons.IH [of i1] show ?thesis
          by (cases r3) simp
      qed
    qed
  qed
qed

lemma decode_body:
  assumes "rx_state inst = PKTTRANSFER_STATE_BYTE"
    and "rx_size inst + length body \<le> payload_size_max inst"
    and "payload_size_max inst \<le> length (buf_rx_p inst)"
  shows "pkttransfer_process_bytes inst (stuffed body) =
           Some (inst\<lparr>buf_rx_p := take (rx_size inst) (buf_rx_p inst) @ body @
                                   drop (rx_size inst + length body) (buf_rx_p inst),
                      rx_size := rx_size inst + length body\<rparr>, [])"
  using assms
proof (induction body arbitrary: inst)
  case Nil
  then show ?case
    by simp
next
  case (Cons b body)
  let ?k = "rx_size inst"
  let ?buf = "buf_rx_p inst"
  let ?inst1 = "inst\<lparr>buf_rx_p := ?buf[?k := b], rx_size := ?k + 1\<rparr>"
  from Cons.prems have k: "?k < payload_size_max inst" "?k < length ?buf"
    by simp_all
  have one: "pkttransfer_process_bytes inst (stuffed [b]) = Some (?inst1, [])"
  proof (cases "b = 0x7E \<or> b = 0x7D")
    case True
    from process_byte_escaped [OF Cons.prems(1) True k(1) Cons.prems(3)] True show ?thesis
      by auto
  next
    case False
    then have "b \<noteq> 0x7E" "b \<noteq> 0x7D"
      by simp_all
    from process_byte_plain [OF Cons.prems(1) this k(1) Cons.prems(3)] False show ?thesis
      by simp
  qed
  have p1: "rx_state ?inst1 = PKTTRANSFER_STATE_BYTE"
    "rx_size ?inst1 + length body \<le> payload_size_max ?inst1"
    "payload_size_max ?inst1 \<le> length (buf_rx_p ?inst1)"
    using Cons.prems by simp_all
  have tk: "take (Suc ?k) (?buf[?k := b]) = take ?k ?buf @ [b]"
    using k(2) by (simp add: take_Suc_conv_app_nth)
  have rest: "pkttransfer_process_bytes ?inst1 (stuffed body) =
      Some (inst\<lparr>buf_rx_p := take ?k ?buf @ (b # body) @ drop (?k + length (b # body)) ?buf,
                 rx_size := ?k + length (b # body)\<rparr>, [])"
    using Cons.IH [OF p1] by (simp add: tk drop_update_cancel)
  have "stuffed (b # body) = stuffed [b] @ stuffed body"
    by simp
  then show ?case
    using one rest by (simp only: process_bytes_append) simp
qed

lemma frame_close:
  assumes "rx_state inst = PKTTRANSFER_STATE_BYTE"
    and "rx_size inst = length p + 2" "1 \<le> length p" "length p + 2 \<le> payload_size_max inst"
    and "payload_size_max inst \<le> length (buf_rx_p inst)"
    and "take (length p + 2) (buf_rx_p inst) = p @ crc16_le p"
  shows "pkttransfer_process_byte inst 0x7E =
           Some (inst\<lparr>received_packets_cnt := received_packets_cnt inst + 1,
                      rx_size := 0, rx_state := PKTTRANSFER_STATE_DELIMITER\<rparr>, [APP_PKT_CB p])"
proof -
  let ?buf = "buf_rx_p inst"
  let ?n = "length p"
  from assms have len: "?n + 2 \<le> length ?buf"
    by simp
  have tp: "take ?n ?buf = p"
    using arg_cong [OF assms(6), of "take ?n"] by (simp add: take_take min_def)
  have "take (?n + 2) ?buf ! ?n = (p @ crc16_le p) ! ?n"
       "take (?n + 2) ?buf ! (?n + 1) = (p @ crc16_le p) ! (?n + 1)"
    by (simp_all only: assms(6))
  then have lo: "?buf ! ?n = ucast (crc16_x25 p AND 0xFF)"
    and hi: "?buf ! Suc ?n = ucast (drop_bit 8 (crc16_x25 p))"
    by (simp_all add: crc16_le_def nth_append)
  from assms(3) have "p \<noteq> []"
    by auto
  with assms(1-5) len show ?thesis
    by (simp add: pkttransfer_process_byte_def pkttransfer_process_frame_def byte_consts
          buf_read_def tp lo hi crc_split_join pkttransfer_crc16_eq)
qed

lemma roundtrip_within_bound:
  assumes "pkttransfer_inv inst" "rx_state inst = PKTTRANSFER_STATE_DELIMITER"
    and "1 \<le> length p" "length p + 2 \<le> payload_size_max inst"
  shows "pkttransfer_process_bytes inst (framed_encoding p) =
           Some (inst\<lparr>sof_detections_cnt := sof_detections_cnt inst + 1,
                      buf_rx_p := p @ crc16_le p @ drop (length p + 2) (buf_rx_p inst),
                      received_packets_cnt := received_packets_cnt inst + 1\<rparr>,
                 [APP_PKT_CB p])"
proof -
  let ?buf = "buf_rx_p inst"
  let ?body = "p @ crc16_le p"
  let ?a = "inst\<lparr>sof_detections_cnt := sof_detections_cnt inst + 1,
                  rx_state := PKTTRANSFER_STATE_BYTE\<rparr>"
  let ?b = "?a\<lparr>buf_rx_p := take (rx_size ?a) (buf_rx_p ?a) @ ?body @
                              drop (rx_size ?a + length ?body) (buf_rx_p ?a),
                 rx_size := rx_size ?a + length ?body\<rparr>"
  from assms(1,2) have z: "rx_size inst = 0" and len: "payload_size_max inst \<le> length ?buf"
    by (simp_all add: pkttransfer_inv_def)
  have lb: "length ?body = length p + 2"
    by (simp add: crc16_le_def)
  have s1: "pkttransfer_process_byte inst 0x7E = Some (?a, [])"
    using assms(2) z by (simp add: pkttransfer_process_byte_def byte_consts)
  have s2: "pkttransfer_process_bytes ?a (stuffed ?body) = Some (?b, [])"
    by (rule decode_body) (use assms(4) z len lb in simp_all)
  have s3: "pkttransfer_process_byte ?b 0x7E =
      Some (?b\<lparr>received_packets_cnt := received_packets_cnt ?b + 1,
                rx_size := 0, rx_state := PKTTRANSFER_STATE_DELIMITER\<rparr>, [APP_PKT_CB p])"
    by (rule frame_close) (use assms(3,4) z len lb in simp_all)
  have "framed_encoding p = [0x7E] @ stuffed ?body @ [0x7E]"
    by (simp add: framed_encoding_def)
  then have "pkttransfer_process_bytes inst (framed_encoding p) =
      Some (?b\<lparr>received_packets_cnt := received_packets_cnt ?b + 1,
                rx_size := 0, rx_state := PKTTRANSFER_STATE_DELIMITER\<rparr>, [APP_PKT_CB p])"
    using s1 s2 s3 by (simp only: process_bytes_append) simp
  then show ?thesis
    using z assms(2) lb by (cases inst) simp
qed

lemma task_idle:
  assumes "pkttransfer_inv inst" "tx_size inst = 0 \<or> \<not> tx_is_avail hw" "\<not> rx_is_ready hw"
  shows "pkttransfer_task ov inst hw = Some (inst, [])"
  using assms
  by (auto simp: pkttransfer_task_def pkttransfer_task_tx_def pkttransfer_task_rx_def
        bytes_for_sending_inv pkttransfer_inv_def pkttransfer_is_init_def)

lemma task_can_tx_only:
  assumes "pkttransfer_inv inst" "tx_size inst \<noteq> 0" "tx_is_avail hw" "\<not> rx_is_ready hw"
  shows "\<exists>inst'. pkttransfer_task PKTTRANSFER_OVER_CAN inst hw =
             Some (inst', [CAN_TX_CB (take 8 (tx_pending_wire inst)) (can_id_tx inst)]) \<and>
           pkttransfer_inv inst' \<and> can_id_tx inst' = can_id_tx inst \<and>
           tx_pending_wire inst' = drop 8 (tx_pending_wire inst)"
proof -
  have "0 < (8::nat)"
    by simp
  from task_fill_wire_pos [OF assms(1,2) this] obtain inst1 where
    f: "pkttransfer_task_fill 8 inst = Some (take 8 (tx_pending_wire inst), inst1)"
       "tx_pending_wire inst1 = drop 8 (tx_pending_wire inst)"
       "pkttransfer_inv inst1" "rx_side_kept inst inst1"
    by blast
  from assms(1) have "pkttransfer_is_init inst"
    by (simp add: pkttransfer_inv_def pkttransfer_is_init_def)
  with f assms show ?thesis
    by (simp add: pkttransfer_task_def pkttransfer_task_tx_def pkttransfer_task_rx_def
          bytes_for_sending_inv byte_consts rx_side_kept_def)
qed

lemma task_can_rx_only:
  assumes "pkttransfer_inv inst" "tx_size inst = 0 \<or> \<not> tx_is_avail hw" "rx_is_ready hw"
    and "length (can_rx hw) \<le> 8"
    and "pkttransfer_process_bytes inst (can_rx hw) = Some (inst', calls)"
  shows "pkttransfer_task PKTTRANSFER_OVER_CAN inst hw =
           Some (inst', CAN_RX_CB (can_id_rx inst) # calls)"
  using assms
  by (auto simp: pkttransfer_task_def pkttransfer_task_tx_def pkttransfer_task_rx_def
        bytes_for_sending_inv pkttransfer_inv_def pkttransfer_is_init_def byte_consts)

lemma task_uart_rx_only:
  assumes "pkttransfer_inv inst" "tx_size inst = 0 \<or> \<not> tx_is_avail hw" "rx_is_ready hw"
    and "pkttransfer_process_byte inst (uart_rx hw) = Some (inst', calls)"
  shows "pkttransfer_task PKTTRANSFER_OVER_UART inst hw = Some (inst', UART_RX_CB # calls)"
  using assms
  by (auto simp: pkttransfer_task_def pkttransfer_task_tx_def pkttransfer_task_rx_def
        bytes_for_sending_inv pkttransfer_inv_def pkttransfer_is_init_def)

text \<open>
  A state between two received bytes of one CAN message is a state between two calls
  of the task: the same byte can arrive alone.
\<close>

lemma reach_process_byte:
  assumes "pkttransfer_reach ov i0 inst" "pkttransfer_inv inst"
    and "pkttransfer_process_byte inst b = Some (inst', calls)"
  shows "pkttransfer_reach ov i0 inst'"
proof (cases ov)
  case PKTTRANSFER_OVER_UART
  let ?hw = "\<lparr>tx_is_avail = False, rx_is_ready = True, uart_rx = b, can_rx = []\<rparr>"
  have "pkttransfer_task PKTTRANSFER_OVER_UART inst ?hw = Some (inst', UART_RX_CB # calls)"
    by (rule task_uart_rx_only) (use assms in simp_all)
  with assms(1) PKTTRANSFER_OVER_UART show ?thesis
    by (auto intro: reach_task)
next
  case PKTTRANSFER_OVER_CAN
  let ?hw = "\<lparr>tx_is_avail = False, rx_is_ready = True, uart_rx = b, can_rx = [b]\<rparr>"
  have "pkttransfer_process_bytes inst (can_rx ?hw) = Some (inst', calls)"
    using assms(3) by simp
  then have "pkttransfer_task PKTTRANSFER_OVER_CAN inst ?hw =
      Some (inst', CAN_RX_CB (can_id_rx inst) # calls)"
    by (rule task_can_rx_only [rotated -1]) (use assms in simp_all)
  with assms(1) PKTTRANSFER_OVER_CAN show ?thesis
    by (auto intro: reach_task)
qed

lemma ex_rx3_task:
  "pkttransfer_task PKTTRANSFER_OVER_CAN ex_inst0 (ex_hw_rx [0x7E, 0x00, 0x78, 0xF0]) =
     Some (ex_rx3, [CAN_RX_CB 0])"
  by code_simp

lemma ex_rx3_close:
  "pkttransfer_process_byte ex_rx3 0x7E =
     Some (ex_rx3\<lparr>received_packets_cnt := 1, rx_size := 0,
                   rx_state := PKTTRANSFER_STATE_DELIMITER\<rparr>, [APP_PKT_CB [0x00]])"
  by code_simp

lemma ex_rx3_close_task:
  "pkttransfer_task PKTTRANSFER_OVER_CAN ex_rx3 (ex_hw_rx [0x7E]) =
     Some (ex_rx3\<lparr>received_packets_cnt := 1, rx_size := 0,
                   rx_state := PKTTRANSFER_STATE_DELIMITER\<rparr>, [CAN_RX_CB 0, APP_PKT_CB [0x00]])"
  by code_simp

lemma ex_rx_full_task:
  "pkttransfer_task PKTTRANSFER_OVER_CAN ex_inst0
     (ex_hw_rx [0x7E, 0x01, 0x7D, 0x5D, 0x02, 0x7D, 0x5E]) = Some (ex_rx_full, [CAN_RX_CB 0])"
  by code_simp

lemma ex_rx_full_bytes:
  "pkttransfer_process_bytes ex_inst0 [0x7E, 0x01, 0x7D, 0x5D, 0x02, 0x7D, 0x5E] =
     Some (ex_rx_full, [])"
  by code_simp

lemma ex_rx_full_drop:
  "pkttransfer_process_byte ex_rx_full 0x8B =
     Some (ex_rx_full\<lparr>rx_size := 0, rx_state := PKTTRANSFER_STATE_DELIMITER\<rparr>, [])"
  by code_simp

lemma ex_rx_full_drop_encoded:
  "pkttransfer_process_bytes ex_rx_full [0x7D, 0x5E] =
     Some (ex_rx_full\<lparr>rx_size := 0, rx_state := PKTTRANSFER_STATE_DELIMITER\<rparr>, [])"
  by code_simp

lemma ex_roundtrip_fails:
  "pkttransfer_process_bytes ex_inst0
     [0x7E, 0x01, 0x7D, 0x5D, 0x02, 0x7D, 0x5E, 0x8B, 0x36, 0x7E] =
     Some (ex_inst0\<lparr>buf_rx_p := [0x01, 0x7D, 0x02, 0x7E, 0, 0],
                     rx_state := PKTTRANSFER_STATE_BYTE, sof_detections_cnt := 2\<rparr>, [])"
  by code_simp

lemma ex_payload9_crc: "pkttransfer_crc16 ex_payload9 = 0x906E"
  unfolding ex_payload9_def by code_simp

lemma ex_payload9_frame: "framed_encoding ex_payload9 = ex_can_msg1 @ ex_can_msg2"
  unfolding framed_encoding_def crc16_le_def pkttransfer_crc16_eq [symmetric] ex_payload9_crc
  by (simp add: ex_payload9_def ex_can_msg1_def ex_can_msg2_def)

lemma app_pkts_set: "set (app_pkts calls) = {d. APP_PKT_CB d \<in> set calls}"
  by (induction calls) (auto simp: app_pkts_def split: pkttransfer_cb_call.splits)

lemma send_accept_init:
  assumes "pkttransfer_is_init inst" "tx_size inst = 0" "n \<le> payload_size_max inst"
    and "n \<le> length p" "payload_size_max inst + 2 \<le> length (buf_tx_p inst)"
  shows "\<exists>inst'. pkttransfer_send ov inst p n cid = Some (PKTTRANSFER_ERR_OK, inst')"
  using assms
  by (simp add: pkttransfer_send_def buf_memcpy_def buf_write_def byte_consts Let_def
        split: pkttransfer_over.splits)

section \<open>The claims\<close>

text \<open>
  C5. \<open>pkttransfer_crc16\<close> computes CRC-16/X-25: for every buffer its result is the
  result of the reference definition \<open>crc16_x25\<close> (reflected polynomial \<open>0x8408\<close>,
  initial register \<open>0xFFFF\<close>, each byte XORed into the low byte, eight
  conditional right shifts for each byte, final XOR with \<open>0xFFFF\<close>), and the CRC of
  the nine bytes \<open>0x31 .. 0x39\<close> is \<open>0x906E\<close>.
\<close>

theorem C5_crc16_is_x25:
  "pkttransfer_crc16 data = crc16_x25 data \<and>
   pkttransfer_crc16 [0x31, 0x32, 0x33, 0x34, 0x35, 0x36, 0x37, 0x38, 0x39] = 0x906E"
proof
  show "pkttransfer_crc16 data = crc16_x25 data"
    by (rule pkttransfer_crc16_eq)
  show "pkttransfer_crc16 [0x31, 0x32, 0x33, 0x34, 0x35, 0x36, 0x37, 0x38, 0x39] = 0x906E"
    by code_simp
qed

text \<open>
  C3. Transmit framing. An instance is taken in any state reachable after
  \<open>pkttransfer_init\<close> with buffers of at least \<open>payload_size_max + 2\<close> bytes. When
  \<open>pkttransfer_send\<close> accepts the payload \<open>p\<close>, calling the task again and again with a
  hardware that always accepts bytes, until \<open>tx_size\<close> is 0, ends within as many calls as
  the frame has bytes, and the bytes handed to \<open>tx_cb\<close> (in the CAN build, the
  messages one after the other) are exactly \<open>0x7E\<close>, the stuffed payload and CRC (low
  byte first), \<open>0x7E\<close>. What the hardware receives in the meantime does not matter.
  The payload \<open>01 7D 02 7E\<close> gives \<open>7E 01 7D 5D 02 7D 5E 8B 36 7E\<close>.
\<close>

theorem C3_transmit_framing:
  assumes "pkttransfer_init pm brx btx = Some i0"
    and "pm + 2 \<le> length brx" and "pm + 2 \<le> length btx"
    and "pkttransfer_reach ov i0 inst"
    and "pkttransfer_send ov inst p (length p) cid = Some (PKTTRANSFER_ERR_OK, inst1)"
    and "\<forall>hw \<in> set hws. tx_is_avail hw \<and> hw_ok ov hw"
    and "length (framed_encoding p) \<le> length hws"
  shows "(\<exists>inst2 calls. pkttransfer_pump ov hws inst1 = Some (inst2, calls) \<and>
            tx_size inst2 = 0 \<and> tx_bytes calls = framed_encoding p) \<and>
         framed_encoding [0x01, 0x7D, 0x02, 0x7E] =
           [0x7E, 0x01, 0x7D, 0x5D, 0x02, 0x7D, 0x5E, 0x8B, 0x36, 0x7E]"
proof
  from init_inv [OF assms(1-3)] have "pkttransfer_inv i0"
    by simp
  from reach_run [OF assms(4) this] have inv: "pkttransfer_inv inst"
    by (simp add: rx_run_ok_def)
  then have init: "pkttransfer_is_init inst"
    by (simp add: pkttransfer_inv_def pkttransfer_is_init_def)
  have acc: "tx_size inst = 0 \<and> length p \<le> payload_size_max inst"
  proof (rule ccontr)
    assume "\<not> ?thesis"
    then have "payload_size_max inst < length p \<or> tx_size inst \<noteq> 0"
      by auto
    from send_reject [OF init this, of ov p cid] assms(5) show False
      by simp
  qed
  then have "tx_size inst = 0" "length p \<le> payload_size_max inst" "length p \<le> length p"
    by simp_all
  from send_accept [OF inv this, of ov cid] assms(5) have
    inv1: "pkttransfer_inv inst1" and wire: "tx_pending_wire inst1 = framed_encoding p"
    by auto
  from assms(6) have oks: "\<forall>hw \<in> set hws. hw_ok ov hw" and av: "\<forall>hw \<in> set hws. tx_is_avail hw"
    by simp_all
  from tx_capacity [OF av, of ov] assms(7) wire have
    "length (tx_pending_wire inst1) \<le> sum_list (map (tx_step_bytes ov) hws)"
    by simp
  from pump_run [OF inv1 oks this] wire
  show "\<exists>inst2 calls. pkttransfer_pump ov hws inst1 = Some (inst2, calls) \<and>
          tx_size inst2 = 0 \<and> tx_bytes calls = framed_encoding p"
    by auto
  show "framed_encoding [0x01, 0x7D, 0x02, 0x7E] =
          [0x7E, 0x01, 0x7D, 0x5D, 0x02, 0x7D, 0x5E, 0x8B, 0x36, 0x7E]"
    by (rule ex_frame)
qed

text \<open>The theorem at the concrete instance.\<close>

theorem C3_transmit_framing_witness:
  "\<exists>inst2 calls.
     pkttransfer_pump PKTTRANSFER_OVER_UART (replicate 10 ex_hw_tx) ex_inst1 = Some (inst2, calls) \<and>
     tx_size inst2 = 0 \<and>
     tx_bytes calls = [0x7E, 0x01, 0x7D, 0x5D, 0x02, 0x7D, 0x5E, 0x8B, 0x36, 0x7E]"
proof -
  have len: "(4::nat) + 2 \<le> length [0, 0, 0, 0, 0, 0 :: uint8_t]"
    by simp
  have l4: "length [0x01, 0x7D, 0x02, 0x7E :: uint8_t] = 4"
    by simp
  have snd: "pkttransfer_send PKTTRANSFER_OVER_UART ex_inst0 [0x01, 0x7D, 0x02, 0x7E]
      (length [0x01, 0x7D, 0x02, 0x7E :: uint8_t]) 0 = Some (PKTTRANSFER_ERR_OK, ex_inst1)"
    unfolding l4 by (rule ex_send)
  have hws: "\<forall>hw \<in> set (replicate 10 ex_hw_tx). tx_is_avail hw \<and> hw_ok PKTTRANSFER_OVER_UART hw"
    using ex_hw_tx_ok by simp
  have enough: "length (framed_encoding [0x01, 0x7D, 0x02, 0x7E]) \<le> length (replicate 10 ex_hw_tx)"
    by (simp add: ex_frame)
  from C3_transmit_framing [OF ex_init len len reach_start snd hws enough] show ?thesis
    by (simp add: ex_frame)
qed

text \<open>
  C4. Failure of \<open>pkttransfer_send\<close>. For every initialized instance whose transmit
  buffer has the \<open>payload_size_max + 2\<close> bytes of the configuration, the function returns
  \<open>PKTTRANSFER_ERR_TX_OVF\<close> exactly when the size exceeds \<open>payload_size_max\<close> or \<open>tx_size\<close>
  is not 0, and then the instance is unchanged; otherwise it returns
  \<open>PKTTRANSFER_ERR_OK\<close>. A payload of \<open>payload_size_max\<close> bytes is accepted by an idle
  instance, a size of \<open>payload_size_max + 1\<close> is refused.
\<close>

theorem C4_send_overflow:
  assumes "pkttransfer_is_init inst"
    and "payload_size_max inst + 2 \<le> length (buf_tx_p inst)"
  shows "(payload_size_max inst < n \<or> tx_size inst \<noteq> 0 \<longrightarrow>
            pkttransfer_send ov inst p n cid = Some (PKTTRANSFER_ERR_TX_OVF, inst)) \<and>
         (n \<le> payload_size_max inst \<and> tx_size inst = 0 \<and> n \<le> length p \<longrightarrow>
            (\<exists>inst'. pkttransfer_send ov inst p n cid = Some (PKTTRANSFER_ERR_OK, inst'))) \<and>
         (\<forall>res inst'. pkttransfer_send ov inst p n cid = Some (res, inst') \<longrightarrow>
            (res = PKTTRANSFER_ERR_TX_OVF \<longleftrightarrow> payload_size_max inst < n \<or> tx_size inst \<noteq> 0) \<and>
            (res = PKTTRANSFER_ERR_TX_OVF \<or> res = PKTTRANSFER_ERR_OK) \<and>
            (res = PKTTRANSFER_ERR_TX_OVF \<longrightarrow> inst' = inst)) \<and>
         (tx_size inst = 0 \<and> payload_size_max inst \<le> length p \<longrightarrow>
            (\<exists>inst'. pkttransfer_send ov inst p (payload_size_max inst) cid =
               Some (PKTTRANSFER_ERR_OK, inst'))) \<and>
         pkttransfer_send ov inst p (payload_size_max inst + 1) cid =
           Some (PKTTRANSFER_ERR_TX_OVF, inst)"
proof -
  let ?pm = "payload_size_max inst"
  have rej: "pkttransfer_send ov inst p k cid = Some (PKTTRANSFER_ERR_TX_OVF, inst)"
    if "?pm < k \<or> tx_size inst \<noteq> 0" for k
    using send_reject [OF assms(1), of k ov p cid] that by simp
  have acc: "\<exists>inst'. pkttransfer_send ov inst p k cid = Some (PKTTRANSFER_ERR_OK, inst')"
    if "k \<le> ?pm" "tx_size inst = 0" "k \<le> length p" for k
    by (rule send_accept_init [OF assms(1) that(2) that(1) that(3) assms(2)])
  have any: "(res = PKTTRANSFER_ERR_TX_OVF \<longleftrightarrow> ?pm < n \<or> tx_size inst \<noteq> 0) \<and>
             (res = PKTTRANSFER_ERR_TX_OVF \<or> res = PKTTRANSFER_ERR_OK) \<and>
             (res = PKTTRANSFER_ERR_TX_OVF \<longrightarrow> inst' = inst)"
    if s: "pkttransfer_send ov inst p n cid = Some (res, inst')" for res inst'
  proof (cases "?pm < n \<or> tx_size inst \<noteq> 0")
    case True
    from rej [OF True] s show ?thesis
      using True by simp
  next
    case False
    have "n \<le> length p"
    proof (rule ccontr)
      assume "\<not> n \<le> length p"
      with False assms(1) have "pkttransfer_send ov inst p n cid = None"
        by (simp add: pkttransfer_send_def buf_memcpy_def)
      with s show False
        by simp
    qed
    with False acc [of n] s show ?thesis
      by auto
  qed
  have over: "pkttransfer_send ov inst p (?pm + 1) cid = Some (PKTTRANSFER_ERR_TX_OVF, inst)"
    by (rule rej) simp
  have "?pm \<le> ?pm"
    by simp
  from rej [of n] acc [of n] acc [OF this] any over show ?thesis
    by blast
qed

text \<open>The theorem at the concrete instance.\<close>

theorem C4_send_overflow_witness:
  "pkttransfer_send PKTTRANSFER_OVER_UART ex_inst0 [0x01, 0x7D, 0x02, 0x7E, 0x00] 5 0 =
     Some (PKTTRANSFER_ERR_TX_OVF, ex_inst0) \<and>
   (\<exists>inst'. pkttransfer_send PKTTRANSFER_OVER_UART ex_inst0 [0x01, 0x7D, 0x02, 0x7E, 0x00] 4 0 =
     Some (PKTTRANSFER_ERR_OK, inst')) \<and>
   pkttransfer_send PKTTRANSFER_OVER_UART ex_inst1 [0x00] 1 0 = Some (PKTTRANSFER_ERR_TX_OVF, ex_inst1)"
proof -
  have i: "pkttransfer_is_init ex_inst0" "pkttransfer_is_init ex_inst1"
      "payload_size_max ex_inst0 + 2 \<le> length (buf_tx_p ex_inst0)"
      "payload_size_max ex_inst1 + 2 \<le> length (buf_tx_p ex_inst1)"
    by (simp_all add: pkttransfer_is_init_def ex_inst0_def ex_inst1_def)
  have z: "tx_size ex_inst0 = 0" "tx_size ex_inst1 = 6" "payload_size_max ex_inst0 = 4"
      "payload_size_max ex_inst1 = 4"
    by (simp_all add: ex_inst0_def ex_inst1_def)
  from C4_send_overflow [where ov = PKTTRANSFER_OVER_UART and n = 5 and cid = 0
           and p = "[0x01, 0x7D, 0x02, 0x7E, 0x00]", OF i(1) i(3)]
    C4_send_overflow [where ov = PKTTRANSFER_OVER_UART and n = 4 and cid = 0
           and p = "[0x01, 0x7D, 0x02, 0x7E, 0x00]", OF i(1) i(3)]
    C4_send_overflow [where ov = PKTTRANSFER_OVER_UART and n = 1 and cid = 0 and p = "[0x00]",
           OF i(2) i(4)] z
  show ?thesis
    by simp
qed

text \<open>
  C6. Invariant of the transmit state. In every state reachable from
  \<open>pkttransfer_init\<close> by calls of \<open>pkttransfer_send\<close> and \<open>pkttransfer_task\<close> (and
  \<open>pkttransfer_set_can_id_rx\<close>), whatever the hardware answers,
  \<open>sent_size \<le> tx_size \<le> payload_size_max + 2\<close>, and \<open>tx_state\<close> is
  \<open>PKTTRANSFER_STATE_DELIMITER\<close> whenever \<open>tx_size\<close> is 0.
\<close>

theorem C6_tx_invariant:
  assumes "pkttransfer_init pm brx btx = Some i0"
    and "pm + 2 \<le> length brx" and "pm + 2 \<le> length btx"
    and "pkttransfer_reach ov i0 inst"
  shows "sent_size inst \<le> tx_size inst \<and> tx_size inst \<le> pm + 2 \<and>
         (tx_size inst = 0 \<longrightarrow> tx_state inst = PKTTRANSFER_STATE_DELIMITER)"
  using reach_inv [OF assms] by (auto simp: pkttransfer_inv_def)

text \<open>The theorem at the concrete instance.\<close>

theorem C6_tx_invariant_witness:
  "pkttransfer_reach PKTTRANSFER_OVER_UART ex_inst0 (ex_inst1\<lparr>tx_state := PKTTRANSFER_STATE_BYTE\<rparr>) \<and>
   sent_size (ex_inst1\<lparr>tx_state := PKTTRANSFER_STATE_BYTE\<rparr>) \<le> 6 \<and>
   tx_size (ex_inst1\<lparr>tx_state := PKTTRANSFER_STATE_BYTE\<rparr>) \<le> 4 + 2 \<and>
   tx_size ex_inst0 = 0 \<and> tx_state ex_inst0 = PKTTRANSFER_STATE_DELIMITER"
proof -
  have r: "pkttransfer_reach PKTTRANSFER_OVER_UART ex_inst0
             (ex_inst1\<lparr>tx_state := PKTTRANSFER_STATE_BYTE\<rparr>)"
    by (rule reach_task [OF reach_send [OF reach_start ex_send] ex_task])
  have z: "tx_size ex_inst0 = 0"
    by (simp add: ex_inst0_def)
  have s: "tx_size (ex_inst1\<lparr>tx_state := PKTTRANSFER_STATE_BYTE\<rparr>) = 6"
    by (simp add: ex_inst1_def)
  from C6_tx_invariant [OF ex_init ex_len ex_len r]
    C6_tx_invariant [OF ex_init ex_len ex_len reach_start [of PKTTRANSFER_OVER_UART]] r z s
  show ?thesis
    by simp
qed

text \<open>
  C10. A payload of size 0. An idle instance accepts it: \<open>pkttransfer_send\<close> returns
  \<open>PKTTRANSFER_ERR_OK\<close>, sets \<open>tx_size\<close> to 2 and \<open>sent_size\<close> to 0 and writes only the
  two bytes of the CRC of the empty payload, low byte first, at the start of the
  transmit buffer; the frame sent afterwards is \<open>7E 00 00 7E\<close>, the CRC alone
  between two delimiters.
\<close>

theorem C10_zero_length_send:
  assumes "pkttransfer_init pm brx btx = Some i0"
    and "pm + 2 \<le> length brx" and "pm + 2 \<le> length btx"
    and "pkttransfer_reach ov i0 inst"
    and "tx_size inst = 0"
    and "\<forall>hw \<in> set hws. tx_is_avail hw \<and> hw_ok ov hw"
    and "4 \<le> length hws"
  shows "\<exists>inst1. pkttransfer_send ov inst p 0 cid = Some (PKTTRANSFER_ERR_OK, inst1) \<and>
           tx_size inst1 = 2 \<and> sent_size inst1 = 0 \<and>
           buf_tx_p inst1 =
             [ucast (pkttransfer_crc16 [] AND 0xFF), ucast (drop_bit 8 (pkttransfer_crc16 []))] @
             drop 2 (buf_tx_p inst) \<and>
           (\<exists>inst2 calls. pkttransfer_pump ov hws inst1 = Some (inst2, calls) \<and>
              tx_size inst2 = 0 \<and> tx_bytes calls = [0x7E, 0x00, 0x00, 0x7E])"
proof -
  from reach_inv [OF assms(1-4)] have inv: "pkttransfer_inv inst"
    by simp
  from send_accept [OF inv assms(5), of 0 p ov cid] obtain inst1 where
    s: "pkttransfer_send ov inst p 0 cid = Some (PKTTRANSFER_ERR_OK, inst1)"
       "inst1 = inst\<lparr>buf_tx_p := take 0 p @ crc16_le (take 0 p) @ drop (0 + 2) (buf_tx_p inst),
                      tx_size := 0 + 2, sent_size := 0,
                      can_id_tx := (case ov of PKTTRANSFER_OVER_UART \<Rightarrow> can_id_tx inst
                                    | PKTTRANSFER_OVER_CAN \<Rightarrow> cid)\<rparr>"
       "pkttransfer_inv inst1" "tx_pending_wire inst1 = framed_encoding (take 0 p)"
    by auto
  from s(2) have f: "tx_size inst1 = 2" "sent_size inst1 = 0"
      "buf_tx_p inst1 =
         [ucast (pkttransfer_crc16 [] AND 0xFF), ucast (drop_bit 8 (pkttransfer_crc16 []))] @
         drop 2 (buf_tx_p inst)"
    by (simp_all add: crc16_le_def pkttransfer_crc16_eq numeral_2_eq_2)
  from s(4) have wire: "tx_pending_wire inst1 = [0x7E, 0x00, 0x00, 0x7E]"
    by (simp add: empty_frame)
  from assms(6) have oks: "\<forall>hw \<in> set hws. hw_ok ov hw" and av: "\<forall>hw \<in> set hws. tx_is_avail hw"
    by simp_all
  from tx_capacity [OF av, of ov] assms(7) wire have
    "length (tx_pending_wire inst1) \<le> sum_list (map (tx_step_bytes ov) hws)"
    by simp
  from pump_run [OF s(3) oks this] wire have
    "\<exists>inst2 calls. pkttransfer_pump ov hws inst1 = Some (inst2, calls) \<and>
       tx_size inst2 = 0 \<and> tx_bytes calls = [0x7E, 0x00, 0x00, 0x7E]"
    by auto
  with s(1) f show ?thesis
    by blast
qed

text \<open>The theorem at the concrete instance.\<close>

theorem C10_zero_length_send_witness:
  "\<exists>inst1. pkttransfer_send PKTTRANSFER_OVER_CAN ex_inst0 [] 0 7 = Some (PKTTRANSFER_ERR_OK, inst1) \<and>
     tx_size inst1 = 2 \<and> sent_size inst1 = 0 \<and> buf_tx_p inst1 = [0, 0, 0, 0, 0, 0] \<and>
     (\<exists>inst2 calls. pkttransfer_pump PKTTRANSFER_OVER_CAN (replicate 4 ex_hw_tx) inst1 =
          Some (inst2, calls) \<and>
        tx_size inst2 = 0 \<and> tx_bytes calls = [0x7E, 0x00, 0x00, 0x7E])"
proof -
  have z: "tx_size ex_inst0 = 0" "buf_tx_p ex_inst0 = [0, 0, 0, 0, 0, 0]"
    by (simp_all add: ex_inst0_def)
  have hws: "\<forall>hw \<in> set (replicate 4 ex_hw_tx). tx_is_avail hw \<and> hw_ok PKTTRANSFER_OVER_CAN hw"
    using ex_hw_tx_ok by simp
  have enough: "4 \<le> length (replicate 4 ex_hw_tx)"
    by simp
  from C10_zero_length_send [where p = "[]" and cid = 7,
         OF ex_init ex_len ex_len reach_start z(1) hws enough]
  show ?thesis
    by (simp add: z(2) empty_crc)
qed

text \<open>
  C1. Round trip at \<open>payload_size_max\<close>. The claim asks that the frame of every payload
  of 1 to \<open>payload_size_max\<close> bytes, fed byte by byte to the decoder of a fresh
  instance, is handed to the application once. The code does not do it: with
  \<open>payload_size_max = 4\<close>, the frame \<open>7E 01 7D 5D 02 7D 5E 8B 36 7E\<close> of the 4-byte
  payload \<open>01 7D 02 7E\<close> (the third test packet) leads to no call of \<open>app_pkt_cb\<close>. The
  decoder drops the frame when the first CRC byte arrives, because it compares
  \<open>rx_size\<close> with \<open>payload_size_max\<close> and not with \<open>payload_size_max + 2\<close>.
\<close>

theorem C1_roundtrip_lost_at_payload_max:
  "pkttransfer_init 4 [0, 0, 0, 0, 0, 0] [0, 0, 0, 0, 0, 0] = Some ex_inst0 \<and>
   length [0x01, 0x7D, 0x02, 0x7E :: uint8_t] = payload_size_max ex_inst0 \<and>
   framed_encoding [0x01, 0x7D, 0x02, 0x7E] =
     [0x7E, 0x01, 0x7D, 0x5D, 0x02, 0x7D, 0x5E, 0x8B, 0x36, 0x7E] \<and>
   pkttransfer_process_bytes ex_inst0 (framed_encoding [0x01, 0x7D, 0x02, 0x7E]) =
     Some (ex_inst0\<lparr>buf_rx_p := [0x01, 0x7D, 0x02, 0x7E, 0, 0],
                     rx_state := PKTTRANSFER_STATE_BYTE, sof_detections_cnt := 2\<rparr>, [])"
  unfolding ex_frame
  using ex_init ex_roundtrip_fails by (simp add: ex_inst0_def)

text \<open>
  C2. Threshold of the decoder. The claim asks that in the state
  \<open>PKTTRANSFER_STATE_BYTE\<close> a byte other than \<open>0x7E\<close> and \<open>0x7D\<close> is stored whenever
  \<open>rx_size < payload_size_max + 2\<close>, and likewise for an escaped byte. The code drops
  the frame as soon as \<open>rx_size = payload_size_max\<close>: with \<open>payload_size_max = 4\<close>,
  after \<open>7E 01 7D 5D 02 7D 5E\<close> the instance holds 4 bytes, and the byte \<open>8B\<close>, as well
  as the escaped byte \<open>7D 5E\<close>, resets \<open>rx_size\<close> to 0 and the state to
  \<open>PKTTRANSFER_STATE_DELIMITER\<close>.
\<close>

theorem C2_overflow_at_payload_max:
  "pkttransfer_process_bytes ex_inst0 [0x7E, 0x01, 0x7D, 0x5D, 0x02, 0x7D, 0x5E] =
     Some (ex_rx_full, []) \<and>
   rx_state ex_rx_full = PKTTRANSFER_STATE_BYTE \<and>
   rx_size ex_rx_full = payload_size_max ex_rx_full \<and>
   rx_size ex_rx_full < payload_size_max ex_rx_full + 2 \<and>
   pkttransfer_process_byte ex_rx_full 0x8B =
     Some (ex_rx_full\<lparr>rx_size := 0, rx_state := PKTTRANSFER_STATE_DELIMITER\<rparr>, []) \<and>
   pkttransfer_process_bytes ex_rx_full [0x7D, 0x5E] =
     Some (ex_rx_full\<lparr>rx_size := 0, rx_state := PKTTRANSFER_STATE_DELIMITER\<rparr>, [])"
  using ex_rx_full_bytes ex_rx_full_drop ex_rx_full_drop_encoded
  by (simp add: ex_rx_full_def ex_inst0_def)

text \<open>
  C8. Bound of the writes to the receive buffer. In every reachable state
  \<open>rx_size \<le> payload_size_max\<close>; one received byte leaves the receive buffer as it is
  or writes it at the index \<open>rx_size\<close>, with \<open>rx_size < payload_size_max\<close>; so the buffer
  keeps its length, and its bytes from the index \<open>payload_size_max\<close> on (the last two of
  a buffer of \<open>payload_size_max + 2\<close> bytes) are those given to \<open>pkttransfer_init\<close>.
\<close>

theorem C8_rx_write_bound:
  assumes "pkttransfer_init pm brx btx = Some i0"
    and "pm + 2 \<le> length brx" and "pm + 2 \<le> length btx"
    and "pkttransfer_reach ov i0 inst"
  shows "rx_size inst \<le> pm \<and>
         length (buf_rx_p inst) = length brx \<and>
         drop pm (buf_rx_p inst) = drop pm brx \<and>
         (\<exists>inst' calls. pkttransfer_process_byte inst b = Some (inst', calls) \<and>
            (buf_rx_p inst' = buf_rx_p inst \<or>
             rx_size inst < pm \<and> (\<exists>v. buf_rx_p inst' = (buf_rx_p inst)[rx_size inst := v])))"
proof -
  from reach_inv [OF assms] have inv: "pkttransfer_inv inst" and pm: "payload_size_max inst = pm"
    and keep: "length (buf_rx_p inst) = length brx" "drop pm (buf_rx_p inst) = drop pm brx"
    by simp_all
  from inv pm have "rx_size inst \<le> pm"
    by (simp add: pkttransfer_inv_def)
  moreover from process_byte_step [OF inv, of b] pm have
    "\<exists>inst' calls. pkttransfer_process_byte inst b = Some (inst', calls) \<and>
       (buf_rx_p inst' = buf_rx_p inst \<or>
        rx_size inst < pm \<and> (\<exists>v. buf_rx_p inst' = (buf_rx_p inst)[rx_size inst := v]))"
    unfolding rx_step_ok_def by blast
  ultimately show ?thesis
    using keep by blast
qed

text \<open>The theorem at the concrete instance.\<close>

theorem C8_rx_write_bound_witness:
  "pkttransfer_reach PKTTRANSFER_OVER_CAN ex_inst0 ex_rx_full \<and>
   rx_size ex_rx_full \<le> 4 \<and> length (buf_rx_p ex_rx_full) = 6 \<and>
   drop 4 (buf_rx_p ex_rx_full) = [0, 0] \<and>
   pkttransfer_reach PKTTRANSFER_OVER_CAN ex_inst0 ex_rx3 \<and>
   (\<exists>inst' calls. pkttransfer_process_byte ex_rx3 0x11 = Some (inst', calls) \<and>
      (buf_rx_p inst' = buf_rx_p ex_rx3 \<or>
       rx_size ex_rx3 < 4 \<and> (\<exists>v. buf_rx_p inst' = (buf_rx_p ex_rx3)[rx_size ex_rx3 := v])))"
proof -
  have r: "pkttransfer_reach PKTTRANSFER_OVER_CAN ex_inst0 ex_rx_full"
    by (rule reach_task [OF reach_start ex_rx_full_task])
  have r3: "pkttransfer_reach PKTTRANSFER_OVER_CAN ex_inst0 ex_rx3"
    by (rule reach_task [OF reach_start ex_rx3_task])
  from C8_rx_write_bound [OF ex_init ex_len ex_len r]
    C8_rx_write_bound [OF ex_init ex_len ex_len r3, of "0x11"] r r3
  show ?thesis
    by simp
qed

text \<open>
  C9. Size of a delivered payload. Whenever the task calls \<open>app_pkt_cb\<close> from a
  reachable state, the payload \<open>d\<close> has at least 1 and at most \<open>payload_size_max - 2\<close>
  bytes. The call comes from the byte that closes the frame, in a state that is itself
  reachable: there \<open>rx_size\<close> is the size of \<open>d\<close> plus 2, \<open>d\<close> is the start of the receive
  buffer, and the two bytes after it are the CRC of \<open>d\<close>, low byte first.
\<close>

theorem C9_callback_size_bound:
  assumes "pkttransfer_init pm brx btx = Some i0"
    and "pm + 2 \<le> length brx" and "pm + 2 \<le> length btx"
    and "pkttransfer_reach ov i0 inst"
  shows "(\<forall>hw inst' calls d.
            pkttransfer_task ov inst hw = Some (inst', calls) \<and> APP_PKT_CB d \<in> set calls \<longrightarrow>
            1 \<le> length d \<and> length d + 2 \<le> pm) \<and>
         (\<forall>b inst' calls d.
            pkttransfer_process_byte inst b = Some (inst', calls) \<and> APP_PKT_CB d \<in> set calls \<longrightarrow>
            calls = [APP_PKT_CB d] \<and> pkttransfer_reach ov i0 inst' \<and>
            1 \<le> length d \<and> length d + 2 \<le> pm \<and> rx_size inst = length d + 2 \<and>
            d = take (length d) (buf_rx_p inst) \<and>
            buf_rx_p inst ! length d = ucast (pkttransfer_crc16 d AND 0xFF) \<and>
            buf_rx_p inst ! (length d + 1) = ucast (drop_bit 8 (pkttransfer_crc16 d)))"
proof (intro conjI allI impI)
  from reach_inv [OF assms] have inv: "pkttransfer_inv inst" and pm: "payload_size_max inst = pm"
    by simp_all
  {
    fix hw inst' calls d
    assume a: "pkttransfer_task ov inst hw = Some (inst', calls) \<and> APP_PKT_CB d \<in> set calls"
    then have "d \<in> set (app_pkts calls)"
      by (simp add: app_pkts_set)
    with task_inv [OF _ inv, of ov hw inst' calls] a pm
    show "1 \<le> length d" "length d + 2 \<le> pm"
      by (auto simp: rx_run_ok_def)
  }
  {
    fix b inst' calls d
    assume a: "pkttransfer_process_byte inst b = Some (inst', calls) \<and> APP_PKT_CB d \<in> set calls"
    then have step: "pkttransfer_process_byte inst b = Some (inst', calls)"
      and mem: "APP_PKT_CB d \<in> set calls"
      by simp_all
    from process_byte_step [OF inv, of b] step have ok: "rx_step_ok inst inst' calls"
      by auto
    from inv pm have le: "rx_size inst \<le> pm" "rx_size inst \<le> length (buf_rx_p inst)"
      by (simp_all add: pkttransfer_inv_def)
    let ?n = "rx_size inst - 2"
    from ok mem have c: "2 < rx_size inst" "calls = [APP_PKT_CB (take ?n (buf_rx_p inst))]"
      "buf_rx_p inst ! ?n = ucast (pkttransfer_crc16 (take ?n (buf_rx_p inst)) AND 0xFF)"
      "buf_rx_p inst ! (rx_size inst - 1) =
         ucast (drop_bit 8 (pkttransfer_crc16 (take ?n (buf_rx_p inst))))"
      unfolding rx_step_ok_def by auto
    from c(2) mem have d: "d = take ?n (buf_rx_p inst)"
      by simp
    with le c(1) have n: "length d = ?n"
      by simp
    with c(1) have n1: "rx_size inst - 1 = length d + 1" "rx_size inst = length d + 2"
      by simp_all
    show "calls = [APP_PKT_CB d]"
      using c(2) d by simp
    show "pkttransfer_reach ov i0 inst'"
      by (rule reach_process_byte [OF assms(4) inv step])
    show "1 \<le> length d" "length d + 2 \<le> pm" "rx_size inst = length d + 2"
      using n c(1) le by simp_all
    show "d = take (length d) (buf_rx_p inst)"
      by (subst n) (rule d)
    have h3: "buf_rx_p inst ! ?n = ucast (pkttransfer_crc16 d AND 0xFF)"
      using c(3) by (simp only: d)
    have h4: "buf_rx_p inst ! (rx_size inst - 1) = ucast (drop_bit 8 (pkttransfer_crc16 d))"
      using c(4) by (simp only: d)
    show "buf_rx_p inst ! length d = ucast (pkttransfer_crc16 d AND 0xFF)"
      using h3 by (simp only: n)
    show "buf_rx_p inst ! (length d + 1) = ucast (drop_bit 8 (pkttransfer_crc16 d))"
      using h4 by (simp only: n1(1))
  }
qed

text \<open>The theorem at the concrete instance.\<close>

theorem C9_callback_size_bound_witness:
  "pkttransfer_reach PKTTRANSFER_OVER_CAN ex_inst0 ex_rx3 \<and>
   pkttransfer_task PKTTRANSFER_OVER_CAN ex_rx3 (ex_hw_rx [0x7E]) =
     Some (ex_rx3\<lparr>received_packets_cnt := 1, rx_size := 0,
                   rx_state := PKTTRANSFER_STATE_DELIMITER\<rparr>, [CAN_RX_CB 0, APP_PKT_CB [0x00]]) \<and>
   pkttransfer_process_byte ex_rx3 0x7E =
     Some (ex_rx3\<lparr>received_packets_cnt := 1, rx_size := 0,
                   rx_state := PKTTRANSFER_STATE_DELIMITER\<rparr>, [APP_PKT_CB [0x00]]) \<and>
   1 \<le> length [0x00 :: uint8_t] \<and> length [0x00 :: uint8_t] + 2 \<le> 4 \<and>
   rx_size ex_rx3 = length [0x00 :: uint8_t] + 2 \<and>
   [0x00] = take (length [0x00 :: uint8_t]) (buf_rx_p ex_rx3) \<and>
   buf_rx_p ex_rx3 ! length [0x00 :: uint8_t] = ucast (pkttransfer_crc16 [0x00] AND 0xFF) \<and>
   buf_rx_p ex_rx3 ! (length [0x00 :: uint8_t] + 1) = ucast (drop_bit 8 (pkttransfer_crc16 [0x00]))"
proof -
  have r3: "pkttransfer_reach PKTTRANSFER_OVER_CAN ex_inst0 ex_rx3"
    by (rule reach_task [OF reach_start ex_rx3_task])
  have m: "APP_PKT_CB [0x00] \<in> set [CAN_RX_CB 0, APP_PKT_CB [0x00]]"
      "APP_PKT_CB [0x00] \<in> set [APP_PKT_CB [0x00]]"
    by simp_all
  from C9_callback_size_bound [OF ex_init ex_len ex_len r3] ex_rx3_close_task ex_rx3_close m r3
  show ?thesis
    by blast
qed

text \<open>
  C7. CAN chunking. In the CAN build with \<open>payload_size_max = 512\<close> and buffers of 514
  bytes, after \<open>pkttransfer_set_can_id_rx\<close> with identifier 2 and \<open>pkttransfer_send\<close> of
  the 9-byte payload \<open>31 .. 39\<close> with identifier 1, the task with a hardware that
  accepts bytes hands over two CAN messages, both with identifier 1, of 8 and of 5
  bytes, and then none; one after the other they are the 13-byte frame
  \<open>7E 31 32 33 34 35 36 37 38 39 6E 90 7E\<close>. The same two messages, received by the
  task of an instance whose receive identifier is 2, are read with identifier 2 and
  hand the 9-byte payload to the application, once.
\<close>

theorem C7_can_chunking:
  assumes "length brx = 514" and "length btx = 514"
  shows "\<exists>i0 i1 i2 i3 i4 j1 j2.
           pkttransfer_init 512 brx btx = Some i0 \<and>
           pkttransfer_set_can_id_rx i0 2 = Some i1 \<and>
           pkttransfer_send PKTTRANSFER_OVER_CAN i1 ex_payload9 9 1 = Some (PKTTRANSFER_ERR_OK, i2) \<and>
           pkttransfer_task PKTTRANSFER_OVER_CAN i2 ex_hw_tx = Some (i3, [CAN_TX_CB ex_can_msg1 1]) \<and>
           pkttransfer_task PKTTRANSFER_OVER_CAN i3 ex_hw_tx = Some (i4, [CAN_TX_CB ex_can_msg2 1]) \<and>
           tx_size i4 = 0 \<and>
           pkttransfer_task PKTTRANSFER_OVER_CAN i4 ex_hw_tx = Some (i4, []) \<and>
           pkttransfer_pump PKTTRANSFER_OVER_CAN (replicate 13 ex_hw_tx) i2 =
             Some (i4, [CAN_TX_CB ex_can_msg1 1, CAN_TX_CB ex_can_msg2 1]) \<and>
           length ex_can_msg1 = 8 \<and> length ex_can_msg2 = 5 \<and>
           ex_can_msg1 @ ex_can_msg2 =
             [0x7E, 0x31, 0x32, 0x33, 0x34, 0x35, 0x36, 0x37, 0x38, 0x39, 0x6E, 0x90, 0x7E] \<and>
           ex_can_msg1 @ ex_can_msg2 = framed_encoding ex_payload9 \<and>
           pkttransfer_task PKTTRANSFER_OVER_CAN i1 (ex_hw_rx ex_can_msg1) =
             Some (j1, [CAN_RX_CB 2]) \<and>
           pkttransfer_task PKTTRANSFER_OVER_CAN j1 (ex_hw_rx ex_can_msg2) =
             Some (j2, [CAN_RX_CB 2, APP_PKT_CB ex_payload9])"
proof -
  have len: "512 + 2 \<le> length brx" "512 + 2 \<le> length btx"
    using assms by simp_all
  obtain i0 where init: "pkttransfer_init 512 brx btx = Some i0"
    by (simp add: pkttransfer_init_def)
  from init_inv [OF init len] have inv0: "pkttransfer_inv i0" and i0: "payload_size_max i0 = 512"
      "buf_rx_p i0 = brx" "tx_size i0 = 0" "rx_size i0 = 0"
      "rx_state i0 = PKTTRANSFER_STATE_DELIMITER"
    by simp_all
  define i1 where "i1 = i0\<lparr>can_id_rx := 2\<rparr>"
  from set_can_id_rx_run [OF inv0, of 2] have setid: "pkttransfer_set_can_id_rx i0 2 = Some i1"
    and inv1: "pkttransfer_inv i1"
    by (simp_all add: i1_def rx_run_ok_def)
  have i1: "payload_size_max i1 = 512" "buf_rx_p i1 = brx" "tx_size i1 = 0" "rx_size i1 = 0"
      "rx_state i1 = PKTTRANSFER_STATE_DELIMITER" "can_id_rx i1 = 2"
    using i0 by (simp_all add: i1_def)
  have l9: "length ex_payload9 = 9" "take 9 ex_payload9 = ex_payload9"
    by (simp_all add: ex_payload9_def)

  have "9 \<le> payload_size_max i1" "9 \<le> length ex_payload9"
    using i1 l9 by simp_all
  from send_accept [OF inv1 i1(3) this, of PKTTRANSFER_OVER_CAN 1] obtain i2 where
    send: "pkttransfer_send PKTTRANSFER_OVER_CAN i1 ex_payload9 9 1 = Some (PKTTRANSFER_ERR_OK, i2)"
    and i2: "can_id_tx i2 = 1" and inv2: "pkttransfer_inv i2"
    and wire2: "tx_pending_wire i2 = ex_can_msg1 @ ex_can_msg2"
    by (auto simp: l9 ex_payload9_frame)
  have msgs: "take 8 (ex_can_msg1 @ ex_can_msg2) = ex_can_msg1"
      "drop 8 (ex_can_msg1 @ ex_can_msg2) = ex_can_msg2"
      "take 8 ex_can_msg2 = ex_can_msg2" "drop 8 ex_can_msg2 = []"
      "length ex_can_msg1 = 8" "length ex_can_msg2 = 5"
    by (simp_all add: ex_can_msg1_def ex_can_msg2_def)
  have hw: "tx_is_avail ex_hw_tx" "\<not> rx_is_ready ex_hw_tx"
    by (simp_all add: ex_hw_tx_def)
  from wire2 have ne2: "tx_size i2 \<noteq> 0"
    using tx_pending_wire_Nil [of i2] by (simp add: ex_can_msg1_def)
  from task_can_tx_only [OF inv2 ne2 hw] obtain i3 where
    t1: "pkttransfer_task PKTTRANSFER_OVER_CAN i2 ex_hw_tx = Some (i3, [CAN_TX_CB ex_can_msg1 1])"
    and inv3: "pkttransfer_inv i3" and i3: "can_id_tx i3 = 1"
    and wire3: "tx_pending_wire i3 = ex_can_msg2"
    by (auto simp: wire2 msgs i2)
  from wire3 have ne3: "tx_size i3 \<noteq> 0"
    using tx_pending_wire_Nil [of i3] by (simp add: ex_can_msg2_def)
  from task_can_tx_only [OF inv3 ne3 hw] obtain i4 where
    t2: "pkttransfer_task PKTTRANSFER_OVER_CAN i3 ex_hw_tx = Some (i4, [CAN_TX_CB ex_can_msg2 1])"
    and inv4: "pkttransfer_inv i4" and wire4: "tx_pending_wire i4 = []"
    by (auto simp: wire3 msgs i3)
  from wire4 have z4: "tx_size i4 = 0"
    by (simp add: tx_pending_wire_Nil)
  have t3: "pkttransfer_task PKTTRANSFER_OVER_CAN i4 ex_hw_tx = Some (i4, [])"
    by (rule task_idle [OF inv4 _ hw(2)]) (simp add: z4)
  have pump: "pkttransfer_pump PKTTRANSFER_OVER_CAN (replicate 13 ex_hw_tx) i2 =
      Some (i4, [CAN_TX_CB ex_can_msg1 1, CAN_TX_CB ex_can_msg2 1])"
    using ne2 ne3 z4 t1 t2 by (simp add: eval_nat_numeral)

  let ?a = "i1\<lparr>sof_detections_cnt := sof_detections_cnt i1 + 1,
                rx_state := PKTTRANSFER_STATE_BYTE\<rparr>"
  let ?body1 = "[0x31, 0x32, 0x33, 0x34, 0x35, 0x36, 0x37] :: uint8_t list"
  define j1 where "j1 = ?a\<lparr>buf_rx_p := take (rx_size ?a) (buf_rx_p ?a) @ ?body1 @
                                       drop (rx_size ?a + length ?body1) (buf_rx_p ?a),
                          rx_size := rx_size ?a + length ?body1\<rparr>"
  have s1: "pkttransfer_process_byte i1 0x7E = Some (?a, [])"
    using i1 by (simp add: pkttransfer_process_byte_def byte_consts)
  have s2: "pkttransfer_process_bytes ?a (stuffed ?body1) = Some (j1, [])"
    unfolding j1_def by (rule decode_body) (use i1 len in simp_all)
  have m1: "ex_can_msg1 = [0x7E] @ stuffed ?body1"
    by (simp add: ex_can_msg1_def)
  have r1: "pkttransfer_process_bytes i1 ex_can_msg1 = Some (j1, [])"
    unfolding m1 using s1 s2 by (simp only: process_bytes_append) simp
  from process_bytes_run [OF inv1, of ex_can_msg1] r1 have invj: "pkttransfer_inv j1"
    and idj: "can_id_rx j1 = 2" and zj: "tx_size j1 = 0"
    using i1 by (auto simp: rx_run_ok_def tx_side_kept_def)
  have "1 \<le> length ex_payload9" "length ex_payload9 + 2 \<le> payload_size_max i1"
    using i1 l9 by simp_all
  from roundtrip_within_bound [OF inv1 i1(5) this] obtain j2 where
    "pkttransfer_process_bytes i1 (ex_can_msg1 @ ex_can_msg2) = Some (j2, [APP_PKT_CB ex_payload9])"
    by (simp add: ex_payload9_frame)
  with r1 have r2: "pkttransfer_process_bytes j1 ex_can_msg2 = Some (j2, [APP_PKT_CB ex_payload9])"
    by (simp only: process_bytes_append) (simp split: option.splits prod.splits)
  have hwr: "\<not> tx_is_avail (ex_hw_rx f)" "rx_is_ready (ex_hw_rx f)" "can_rx (ex_hw_rx f) = f" for f
    by (simp_all add: ex_hw_rx_def)
  have rx1: "pkttransfer_task PKTTRANSFER_OVER_CAN i1 (ex_hw_rx ex_can_msg1) =
      Some (j1, [CAN_RX_CB 2])"
    using task_can_rx_only [OF inv1 _ hwr(2), of ex_can_msg1 j1 "[]"] r1
    by (simp add: hwr msgs i1)
  have rx2: "pkttransfer_task PKTTRANSFER_OVER_CAN j1 (ex_hw_rx ex_can_msg2) =
      Some (j2, [CAN_RX_CB 2, APP_PKT_CB ex_payload9])"
    using task_can_rx_only [OF invj _ hwr(2), of ex_can_msg2 j2 "[APP_PKT_CB ex_payload9]"] r2
    by (simp add: hwr msgs idj)
  have whole: "ex_can_msg1 @ ex_can_msg2 =
      [0x7E, 0x31, 0x32, 0x33, 0x34, 0x35, 0x36, 0x37, 0x38, 0x39, 0x6E, 0x90, 0x7E]"
    by (simp add: ex_can_msg1_def ex_can_msg2_def)
  note frame = ex_payload9_frame [symmetric]
  show ?thesis
    by (intro exI [of _ i0] exI [of _ i1] exI [of _ i2] exI [of _ i3] exI [of _ i4]
          exI [of _ j1] exI [of _ j2] conjI)
       (rule init setid send t1 t2 z4 t3 pump msgs(5) msgs(6) whole frame rx1 rx2)+
qed

text \<open>The theorem with buffers of 514 zero bytes.\<close>

theorem C7_can_chunking_witness:
  "\<exists>i0 i1 i2 i3 i4 j1 j2.
           pkttransfer_init 512 (replicate 514 0) (replicate 514 0) = Some i0 \<and>
           pkttransfer_set_can_id_rx i0 2 = Some i1 \<and>
           pkttransfer_send PKTTRANSFER_OVER_CAN i1 ex_payload9 9 1 = Some (PKTTRANSFER_ERR_OK, i2) \<and>
           pkttransfer_task PKTTRANSFER_OVER_CAN i2 ex_hw_tx = Some (i3, [CAN_TX_CB ex_can_msg1 1]) \<and>
           pkttransfer_task PKTTRANSFER_OVER_CAN i3 ex_hw_tx = Some (i4, [CAN_TX_CB ex_can_msg2 1]) \<and>
           tx_size i4 = 0 \<and>
           pkttransfer_task PKTTRANSFER_OVER_CAN i4 ex_hw_tx = Some (i4, []) \<and>
           pkttransfer_pump PKTTRANSFER_OVER_CAN (replicate 13 ex_hw_tx) i2 =
             Some (i4, [CAN_TX_CB ex_can_msg1 1, CAN_TX_CB ex_can_msg2 1]) \<and>
           length ex_can_msg1 = 8 \<and> length ex_can_msg2 = 5 \<and>
           ex_can_msg1 @ ex_can_msg2 =
             [0x7E, 0x31, 0x32, 0x33, 0x34, 0x35, 0x36, 0x37, 0x38, 0x39, 0x6E, 0x90, 0x7E] \<and>
           ex_can_msg1 @ ex_can_msg2 = framed_encoding ex_payload9 \<and>
           pkttransfer_task PKTTRANSFER_OVER_CAN i1 (ex_hw_rx ex_can_msg1) =
             Some (j1, [CAN_RX_CB 2]) \<and>
           pkttransfer_task PKTTRANSFER_OVER_CAN j1 (ex_hw_rx ex_can_msg2) =
             Some (j2, [CAN_RX_CB 2, APP_PKT_CB ex_payload9])"
  by (rule C7_can_chunking) simp_all

end
